theory Spec2Isabelle
  imports Main "HOL-Library.Word"
begin

section \<open>JavaScript values, strings and documents\<close>

text \<open>
  A JavaScript string is a sequence of UTF-16 code units. A record (a plain object) is a
  finite map from property names to values; reading a property that is absent yields
  \<open>undefined\<close>.
\<close>

type_synonym jsstring = "16 word list"

datatype jsval = JUndefined | JNull | JBool bool | JNumber int | JString jsstring

fun typeof :: "jsval \<Rightarrow> string" where
  "typeof JUndefined = ''undefined''"
| "typeof JNull = ''object''"
| "typeof (JBool b) = ''boolean''"
| "typeof (JNumber n) = ''number''"
| "typeof (JString s) = ''string''"

type_synonym doc = "jsstring \<rightharpoonup> jsval"

definition get_field :: "doc \<Rightarrow> jsstring \<Rightarrow> jsval" where
  "get_field d k = (case d k of None \<Rightarrow> JUndefined | Some v \<Rightarrow> v)"

text \<open>The property names the facade itself writes: \<open>_id\<close> and \<open>upsert\<close>.\<close>

definition id_key :: jsstring where
  "id_key = [0x5F, 0x69, 0x64]"

definition upsert_key :: jsstring where
  "upsert_key = [0x75, 0x70, 0x73, 0x65, 0x72, 0x74]"

text \<open>
  \<open>String.prototype.trim\<close> removes the ECMAScript WhiteSpace and LineTerminator code
  points from both ends; all of them are single code units.
\<close>

definition is_white_space :: "16 word \<Rightarrow> bool" where
  "is_white_space c = (c \<in> set [0x0009, 0x000A, 0x000B, 0x000C, 0x000D, 0x0020, 0x00A0,
     0x1680, 0x2000, 0x2001, 0x2002, 0x2003, 0x2004, 0x2005, 0x2006, 0x2007, 0x2008,
     0x2009, 0x200A, 0x2028, 0x2029, 0x202F, 0x205F, 0x3000, 0xFEFF])"

definition trim :: "jsstring \<Rightarrow> jsstring" where
  "trim s = rev (dropWhile is_white_space (rev (dropWhile is_white_space s)))"

text \<open>A string is blank when trimming it leaves the empty string.\<close>

definition blank :: "jsstring \<Rightarrow> bool" where
  "blank s = (trim s = [])"

text \<open>Truthiness of the values the code tests with \<open>!x\<close>, \<open>x || y\<close> and \<open>if (x)\<close>.\<close>

definition truthy_string :: "jsstring option \<Rightarrow> bool" where
  "truthy_string s = (case s of None \<Rightarrow> False | Some x \<Rightarrow> x \<noteq> [])"

section \<open>Object identifiers\<close>

text \<open>
  \<open>Types.ObjectId\<close> belongs to the database driver. An object id is a 12-byte value;
  \<open>toString\<close> prints it as 24 lower-case hexadecimal digits, most significant first.
  The values the driver's generator hands out are a parameter: the sequence of ids still
  to come.
\<close>

type_synonym ObjectId = "96 word"

type_synonym oid_source = "nat \<Rightarrow> ObjectId"

definition hex_chars :: "16 word list" where
  "hex_chars = [0x30, 0x31, 0x32, 0x33, 0x34, 0x35, 0x36, 0x37, 0x38, 0x39,
     0x61, 0x62, 0x63, 0x64, 0x65, 0x66]"

definition toString :: "ObjectId \<Rightarrow> jsstring" where
  "toString oid = map (\<lambda>i. hex_chars ! (unat (drop_bit (4 * (23 - i)) oid) mod 16)) [0..<24]"

definition new_ObjectId :: "oid_source \<Rightarrow> ObjectId \<times> oid_source" where
  "new_ObjectId g = (g 0, \<lambda>n. g (Suc n))"

section \<open>Identifier assignment: \<open>MongoBase.id\<close>\<close>

datatype create_arg = Single doc | Many "doc list"

text \<open>
  The test of the array branch:
  \<^verbatim>\<open>typeof d._id !== 'string' || typeof d._id === 'string' && d._id?.trim() === ''\<close>.
\<close>

definition needs_id :: "doc \<Rightarrow> bool" where
  "needs_id d =
     (let v = get_field d id_key
      in typeof v \<noteq> ''string'' \<or>
         (typeof v = ''string'' \<and> (case v of JString s \<Rightarrow> trim s = [] | _ \<Rightarrow> False)))"

definition with_new_id :: "doc \<Rightarrow> ObjectId \<Rightarrow> doc" where
  "with_new_id d oid = d(id_key \<mapsto> JString (toString oid))"

text \<open>The \<open>for\<close> loop of the array branch, pushing to \<open>result\<close> in order.\<close>

fun id_loop :: "doc list \<Rightarrow> oid_source \<Rightarrow> doc list \<times> oid_source" where
  "id_loop [] g = ([], g)"
| "id_loop (d # ds) g =
     (if needs_id d
      then (let (oid, g1) = new_ObjectId g;
                (rest, g2) = id_loop ds g1
            in (with_new_id d oid # rest, g2))
      else id_loop ds g)"

fun id_MongoBase :: "create_arg \<Rightarrow> oid_source \<Rightarrow> doc list \<times> oid_source" where
  "id_MongoBase (Many ds) g = id_loop ds g"
| "id_MongoBase (Single d) g =
     (let (oid, g1) = new_ObjectId g in ([with_new_id d oid], g1))"

section \<open>Schemas, descriptors and the process-wide state\<close>

text \<open>
  What \<open>new mongodb.schema(definition, options)\<close> builds: the field definition, the
  options the code passes, and the index specifications that \<open>_schema.index\<close> appended.
\<close>

record schema_options =
  opt_id :: bool
  versionKey :: bool
  createdAt :: bool
  updatedAt :: bool

record compiled_schema =
  s_fields :: doc
  s_options :: schema_options
  s_indexes :: "((jsstring \<times> int) \<times> doc) list"

definition model_schema_options :: schema_options where
  "model_schema_options =
     \<lparr>opt_id = False, versionKey = False, createdAt = True, updatedAt = True\<rparr>"

definition new_schema :: "doc \<Rightarrow> schema_options \<Rightarrow> compiled_schema" where
  "new_schema def opts = \<lparr>s_fields = def, s_options = opts, s_indexes = []\<rparr>"

definition schema_index :: "compiled_schema \<Rightarrow> jsstring \<times> int \<Rightarrow> doc \<Rightarrow> compiled_schema" where
  "schema_index s spec opts = s\<lparr>s_indexes := s_indexes s @ [(spec, opts)]\<rparr>"

text \<open>
  The fields of a \<open>MongoBase\<close> instance. \<open>index\<close> lists the index specifications in
  the order \<open>for (const key in this.index)\<close> visits them.
\<close>

record MongoBase =
  tenantId :: "jsstring option"
  collectionName :: jsstring
  schemaModel :: doc
  index :: "(jsstring \<times> doc) list option"

datatype error = TypeError | DriverError nat

text \<open>An entry of \<open>global.tenantDBModel\<close>: the model handle and its timer's id.\<close>

record 'h cache_entry =
  data :: 'h
  timer :: nat

text \<open>
  A pending \<open>setTimeout\<close> of the cache: its id, the time it is due, and the collection
  name its callback reads from the instance that set it.
\<close>

record timer_task =
  t_id :: nat
  t_due :: nat
  t_name :: jsstring

text \<open>What the model getter does to objects outside the cache, in order.\<close>

datatype event =
    SchemaCompiled doc schema_options
  | IndexApplied jsstring doc
  | ModelRequested jsstring compiled_schema jsstring

record ('h, 'd) world =
  tenantDBModel :: "jsstring \<rightharpoonup> 'h cache_entry"
  timers :: "timer_task list"
  next_timer :: nat
  clock :: nat
  trace :: "event list"
  objectIds :: oid_source
  db :: 'd

section \<open>The driver boundary\<close>

text \<open>
  The database driver is outside the repository. Its operations are parameters: each
  takes the driver's state and returns a result or an error together with the new state.
  \<open>'h\<close> is the type of model handles, \<open>'q\<close> the type of query objects that
  \<open>find\<close> returns and \<open>sort\<close>, \<open>skip\<close> and \<open>limit\<close> refine.
\<close>

datatype jsnumber = Num int | NaN

fun truthy_number :: "jsnumber \<Rightarrow> bool" where
  "truthy_number (Num n) = (n \<noteq> 0)"
| "truthy_number NaN = False"

datatype sort_direction = Asc | Desc | Ascending | Descending | One | MinusOne

type_synonym sort_arg = "(jsstring \<times> sort_direction) list option"

record update_result =
  acknowledged :: bool
  modifiedCount :: nat
  upsertedId :: "jsstring option"
  upsertedCount :: nat
  matchedCount :: nat

record ('h, 'd, 'q) driver =
  server_model :: "jsstring \<Rightarrow> compiled_schema \<Rightarrow> jsstring \<Rightarrow> 'd \<Rightarrow> (error + 'h) \<times> 'd"
  insertMany :: "'h \<Rightarrow> doc list \<Rightarrow> 'd \<Rightarrow> (error + doc list) \<times> 'd"
  save :: "'h \<Rightarrow> doc \<Rightarrow> 'd \<Rightarrow> (error + doc) \<times> 'd"
  model_updateOne :: "'h \<Rightarrow> doc \<Rightarrow> doc \<Rightarrow> doc option \<Rightarrow> 'd \<Rightarrow> (error + update_result) \<times> 'd"
  model_updateMany :: "'h \<Rightarrow> doc \<Rightarrow> doc \<Rightarrow> doc option \<Rightarrow> 'd \<Rightarrow> (error + update_result) \<times> 'd"
  countDocuments :: "'h \<Rightarrow> doc \<Rightarrow> 'd \<Rightarrow> (error + nat) \<times> 'd"
  estimatedDocumentCount :: "'h \<Rightarrow> 'd \<Rightarrow> (error + nat) \<times> 'd"
  model_find :: "'h \<Rightarrow> doc \<Rightarrow> doc option \<Rightarrow> 'q"
  q_sort :: "sort_arg \<Rightarrow> 'q \<Rightarrow> 'q"
  q_skip :: "jsnumber \<Rightarrow> 'q \<Rightarrow> 'q"
  q_limit :: "jsnumber \<Rightarrow> 'q \<Rightarrow> 'q"
  q_lean :: "'q \<Rightarrow> 'd \<Rightarrow> (error + doc list) \<times> 'd"

section \<open>The model getter and its cache\<close>

definition TTL :: nat where
  "TTL = 30 * 60 * 1000"

definition index_specs :: "(jsstring \<times> doc) list option \<Rightarrow> (jsstring \<times> doc) list" where
  "index_specs ix = (case ix of None \<Rightarrow> [] | Some kvs \<Rightarrow> kvs)"

definition build_schema :: "MongoBase \<Rightarrow> compiled_schema" where
  "build_schema b =
     foldl (\<lambda>s (key, opts). schema_index s (key, 1) opts)
       (new_schema (schemaModel b) model_schema_options) (index_specs (index b))"

definition build_events :: "MongoBase \<Rightarrow> event list" where
  "build_events b =
     SchemaCompiled (schemaModel b) model_schema_options
       # map (\<lambda>(key, opts). IndexApplied key opts) (index_specs (index b))
     @ [ModelRequested (collectionName b) (build_schema b) (collectionName b)]"

text \<open>
  \<open>get model()\<close>. A present entry is returned at once. Otherwise the schema is built,
  the index specifications are applied and the driver is asked for the model; an error
  of the driver leaves the getter before anything is stored. Without a tenant id the
  model is returned and nothing is stored; with one, the entry is stored together with
  a timer due \<open>TTL\<close> milliseconds later.
\<close>

definition model ::
  "('h, 'd, 'q) driver \<Rightarrow> MongoBase \<Rightarrow> ('h, 'd) world \<Rightarrow> (error + 'h) \<times> ('h, 'd) world" where
  "model D b w =
     (case tenantDBModel w (collectionName b) of
        Some e \<Rightarrow> (Inr (data e), w)
      | None \<Rightarrow>
          (let (r, d1) = server_model D (collectionName b) (build_schema b) (collectionName b) (db w);
               w1 = w\<lparr>trace := trace w @ build_events b, db := d1\<rparr>
           in case r of
                Inl err \<Rightarrow> (Inl err, w1)
              | Inr m \<Rightarrow>
                  if \<not> truthy_string (tenantId b) then (Inr m, w1)
                  else (Inr m,
                        w1\<lparr>tenantDBModel := (tenantDBModel w1)(collectionName b \<mapsto>
                               \<lparr>data = m, timer = next_timer w1\<rparr>),
                           timers := timers w1 @
                               [\<lparr>t_id = next_timer w1, t_due = clock w1 + TTL,
                                 t_name = collectionName b\<rparr>],
                           next_timer := Suc (next_timer w1)\<rparr>)))"

text \<open>
  The timer's callback: \<open>clearTimeout\<close> of the timer stored in the entry, then
  \<open>delete\<close> of the entry. Reading \<open>.timer\<close> of an absent entry is a TypeError.
\<close>

definition fire :: "timer_task \<Rightarrow> ('h, 'd) world \<Rightarrow> (error + unit) \<times> ('h, 'd) world" where
  "fire t w =
     (let w1 = w\<lparr>timers := remove1 t (timers w)\<rparr>
      in case tenantDBModel w1 (t_name t) of
           None \<Rightarrow> (Inl TypeError, w1)
         | Some e \<Rightarrow>
             (Inr (),
              w1\<lparr>timers := filter (\<lambda>x. t_id x \<noteq> timer e) (timers w1),
                 tenantDBModel := (tenantDBModel w1)(t_name t := None)\<rparr>))"

text \<open>
  The states the process can be in: it starts with an empty cache and no timer; a model
  is requested through any instance, time passes, a due timer fires, or a facade
  operation changes the database and the id generator.
\<close>

inductive reachable :: "('h, 'd, 'q) driver \<Rightarrow> ('h, 'd) world \<Rightarrow> bool"
  for D :: "('h, 'd, 'q) driver" where
  start: "tenantDBModel w = Map.empty \<Longrightarrow> timers w = [] \<Longrightarrow> reachable D w"
| request: "reachable D w \<Longrightarrow> reachable D (snd (model D b w))"
| passes: "reachable D w \<Longrightarrow> reachable D (w\<lparr>clock := clock w + n\<rparr>)"
| fires: "reachable D w \<Longrightarrow> t \<in> set (timers w) \<Longrightarrow> t_due t \<le> clock w
            \<Longrightarrow> reachable D (snd (fire t w))"
| operates: "reachable D w \<Longrightarrow> reachable D (w\<lparr>objectIds := g, db := d\<rparr>)"

section \<open>The record-access facade\<close>

text \<open>
  Every operation reads \<open>this.model\<close> first; an error of the getter ends the
  operation, otherwise the driver's operation runs on the handle.
\<close>

definition with_model ::
  "('h, 'd, 'q) driver \<Rightarrow> MongoBase \<Rightarrow> ('h, 'd) world
     \<Rightarrow> ('h \<Rightarrow> ('h, 'd) world \<Rightarrow> (error + 'a) \<times> ('h, 'd) world)
     \<Rightarrow> (error + 'a) \<times> ('h, 'd) world" where
  "with_model D b w f =
     (case model D b w of
        (Inl err, w1) \<Rightarrow> (Inl err, w1)
      | (Inr h, w1) \<Rightarrow> f h w1)"

definition on_db ::
  "('d \<Rightarrow> (error + 'a) \<times> 'd) \<Rightarrow> ('h, 'd) world \<Rightarrow> (error + 'a) \<times> ('h, 'd) world" where
  "on_db f w = (let (r, d1) = f (db w) in (r, w\<lparr>db := d1\<rparr>))"

definition create ::
  "('h, 'd, 'q) driver \<Rightarrow> MongoBase \<Rightarrow> create_arg \<Rightarrow> ('h, 'd) world
     \<Rightarrow> (error + create_arg) \<times> ('h, 'd) world" where
  "create D b arg w =
     with_model D b w (\<lambda>h w1.
       (let (docs, g) = id_MongoBase arg (objectIds w1);
            w2 = w1\<lparr>objectIds := g\<rparr>
        in case arg of
             Many ds \<Rightarrow>
               (case on_db (insertMany D h docs) w2 of
                  (Inl err, w3) \<Rightarrow> (Inl err, w3)
                | (Inr out, w3) \<Rightarrow> (Inr (Many out), w3))
           | Single d \<Rightarrow>
               (case on_db (save D h (case docs of [] \<Rightarrow> Map.empty | x # xs \<Rightarrow> x)) w2 of
                  (Inl err, w3) \<Rightarrow> (Inl err, w3)
                | (Inr out, w3) \<Rightarrow> (Inr (Single out), w3))))"






definition paging ::
  "('h, 'd, 'q) driver \<Rightarrow> MongoBase \<Rightarrow> doc \<Rightarrow> jsnumber \<Rightarrow> jsnumber \<Rightarrow> sort_arg \<Rightarrow> doc option
     \<Rightarrow> ('h, 'd) world \<Rightarrow> (error + doc list) \<times> ('h, 'd) world" where
  "paging D b query lim skip srt opts w =
     with_model D b w (\<lambda>h. on_db
       (q_lean D
         (q_limit D lim
           (q_skip D (if truthy_number skip then skip else Num 0)
             (q_sort D srt (model_find D h query opts))))))"

definition count ::
  "('h, 'd, 'q) driver \<Rightarrow> MongoBase \<Rightarrow> doc option \<Rightarrow> ('h, 'd) world
     \<Rightarrow> (error + nat) \<times> ('h, 'd) world" where
  "count D b query w =
     (case query of
        Some q \<Rightarrow> with_model D b w (\<lambda>h. on_db (countDocuments D h q))
      | None \<Rightarrow> with_model D b w (\<lambda>h. on_db (estimatedDocumentCount D h)))"

section \<open>The connection manager\<close>

text \<open>
  \<open>mongoconnect\<close> reads the address, and either logs that it is required or hands it to
  the driver's \<open>connect\<close> together with a callback. The state records what
  \<open>getENV('MONGO_URL')\<close> returns, the lines logged at error level, the addresses handed to
  \<open>connect\<close>, the pending retry timers and the delay of every \<open>setTimeout\<close> so far.
\<close>

datatype log_entry = AddressRequired "jsstring option" | ConnectFailed nat

record retry_timer =
  r_id :: nat
  r_due :: nat

record conn_state =
  MONGO_URL :: "jsstring option"
  logged :: "log_entry list"
  connects :: "jsstring list"
  pending :: "retry_timer list"
  delays :: "nat list"
  c_next_timer :: nat
  c_clock :: nat

definition RECONNET_TIME :: nat where
  "RECONNET_TIME = 5000"

definition set_retry :: "nat \<Rightarrow> conn_state \<Rightarrow> conn_state" where
  "set_retry delay c =
     c\<lparr>pending := pending c @ [\<lparr>r_id = c_next_timer c, r_due = c_clock c + delay\<rparr>],
       delays := delays c @ [delay],
       c_next_timer := Suc (c_next_timer c)\<rparr>"

definition mongoconnect :: "conn_state \<Rightarrow> conn_state" where
  "mongoconnect c =
     (if \<not> truthy_string (MONGO_URL c)
      then c\<lparr>logged := logged c @ [AddressRequired (MONGO_URL c)]\<rparr>
      else c\<lparr>connects := connects c @ [case MONGO_URL c of None \<Rightarrow> [] | Some a \<Rightarrow> a]\<rparr>)"

text \<open>The callback given to \<open>connect\<close>; the driver calls it with the error, if any.\<close>

definition connect_callback :: "nat option \<Rightarrow> conn_state \<Rightarrow> conn_state" where
  "connect_callback err c =
     (case err of
        None \<Rightarrow> c
      | Some e \<Rightarrow> set_retry RECONNET_TIME (c\<lparr>logged := logged c @ [ConnectFailed e]\<rparr>))"

text \<open>
  One run of \<open>mongoconnect\<close> together with the driver's answer: the callback runs only
  when \<open>connect\<close> was called.
\<close>

definition attempt :: "nat option \<Rightarrow> conn_state \<Rightarrow> conn_state" where
  "attempt outcome c =
     (if truthy_string (MONGO_URL c) then connect_callback outcome (mongoconnect c)
      else mongoconnect c)"

text \<open>
  The oldest pending retry timer fires, no earlier than it is due, and runs
  \<open>mongoconnect\<close> again.
\<close>

definition retry_fires :: "nat option \<Rightarrow> conn_state \<Rightarrow> conn_state" where
  "retry_fires outcome c =
     (case pending c of
        [] \<Rightarrow> c
      | t # ts \<Rightarrow> attempt outcome (c\<lparr>pending := ts, c_clock := max (c_clock c) (r_due t)\<rparr>))"

text \<open>
  The life of the connection from \<open>init\<close> on: the first attempt, then one attempt per
  timer, the driver answering with the outcomes in turn.
\<close>

definition connect_run :: "nat option list \<Rightarrow> conn_state \<Rightarrow> conn_state" where
  "connect_run outcomes c =
     (case outcomes of
        [] \<Rightarrow> c
      | x # xs \<Rightarrow> foldl (\<lambda>s y. retry_fires y s) (attempt x c) xs)"

section \<open>A reference driver\<close>

text \<open>
  An in-memory driver with the usual semantics of the driver's operations, used to run
  the facade on concrete inputs: a handle is the collection's name, the state is the list
  of stored records, a query object is a function from the stored records to its result.
\<close>

definition matches :: "doc \<Rightarrow> doc \<Rightarrow> bool" where
  "matches q x = (q \<subseteq>\<^sub>m x)"

definition direction_sign :: "sort_direction \<Rightarrow> int" where
  "direction_sign dir = (if dir \<in> {Asc, Ascending, One} then 1 else - 1)"

definition number_field :: "doc \<Rightarrow> jsstring \<Rightarrow> int" where
  "number_field x k = (case x k of Some (JNumber n) \<Rightarrow> n | _ \<Rightarrow> 0)"

definition ref_sort :: "sort_arg \<Rightarrow> doc list \<Rightarrow> doc list" where
  "ref_sort srt xs =
     (case srt of
        None \<Rightarrow> xs
      | Some specs \<Rightarrow>
          foldr (\<lambda>(k, dir) ys. sort_key (\<lambda>x. direction_sign dir * number_field x k) ys) specs xs)"

fun ref_skip :: "jsnumber \<Rightarrow> doc list \<Rightarrow> doc list" where
  "ref_skip (Num k) xs = drop (nat k) xs"
| "ref_skip NaN xs = xs"

fun ref_limit :: "jsnumber \<Rightarrow> doc list \<Rightarrow> doc list" where
  "ref_limit (Num n) xs = take (nat n) xs"
| "ref_limit NaN xs = xs"

definition wants_upsert :: "doc option \<Rightarrow> bool" where
  "wants_upsert opts = (case opts of None \<Rightarrow> False | Some m \<Rightarrow> m upsert_key = Some (JBool True))"

definition ref_update ::
  "doc \<Rightarrow> doc \<Rightarrow> doc option \<Rightarrow> doc list \<Rightarrow> (error + update_result) \<times> doc list" where
  "ref_update q u opts d =
     (if list_ex (matches q) d
      then (Inr \<lparr>acknowledged = True, modifiedCount = length (filter (matches q) d),
                 upsertedId = None, upsertedCount = 0,
                 matchedCount = length (filter (matches q) d)\<rparr>,
            map (\<lambda>x. if matches q x then x ++ u else x) d)
      else if wants_upsert opts
      then (Inr \<lparr>acknowledged = True, modifiedCount = 0,
                 upsertedId = Some (toString 0), upsertedCount = 1, matchedCount = 0\<rparr>,
            d @ [(q ++ u)(id_key \<mapsto> JString (toString 0))])
      else (Inr \<lparr>acknowledged = True, modifiedCount = 0,
                 upsertedId = None, upsertedCount = 0, matchedCount = 0\<rparr>, d))"

definition ref_driver :: "(jsstring, doc list, doc list \<Rightarrow> doc list) driver" where
  "ref_driver =
     \<lparr>server_model = (\<lambda>name s coll d. (Inr name, d)),
      insertMany = (\<lambda>h xs d. (Inr xs, d @ xs)),
      save = (\<lambda>h x d. (Inr x, d @ [x])),
      model_updateOne = (\<lambda>h. ref_update),
      model_updateMany = (\<lambda>h. ref_update),
      countDocuments = (\<lambda>h q d. (Inr (length (filter (matches q) d)), d)),
      estimatedDocumentCount = (\<lambda>h d. (Inr (length d), d)),
      model_find = (\<lambda>h q opts. filter (matches q)),
      q_sort = (\<lambda>srt c d. ref_sort srt (c d)),
      q_skip = (\<lambda>k c d. ref_skip k (c d)),
      q_limit = (\<lambda>n c d. ref_limit n (c d)),
      q_lean = (\<lambda>c d. (Inr (c d), d))\<rparr>"

text \<open>
  A second driver, whose query object is a bag of options as the query objects of the
  object mapper are: \<open>sort\<close>, \<open>skip\<close> and \<open>limit\<close> store their argument, and the
  query runs when it is awaited. Running it follows the database's documented semantics:
  the matching records are sorted, then \<open>skip\<close> records are left out, then the rest is
  cut to \<open>limit\<close> records, where a limit of 0 means no limit and a negative limit counts
  as its absolute value; a negative skip, or NaN for either, is an error of the driver.
\<close>

record find_query =
  fq_filter :: doc
  fq_options :: "doc option"
  fq_sort :: sort_arg
  fq_skip :: "jsnumber option"
  fq_limit :: "jsnumber option"

definition skip_of :: "jsnumber option \<Rightarrow> nat option" where
  "skip_of s =
     (case s of
        None \<Rightarrow> Some 0
      | Some (Num k) \<Rightarrow> if k < 0 then None else Some (nat k)
      | Some NaN \<Rightarrow> None)"

definition limit_of :: "jsnumber option \<Rightarrow> nat option" where
  "limit_of l =
     (case l of
        None \<Rightarrow> Some 0
      | Some (Num n) \<Rightarrow> Some (nat \<bar>n\<bar>)
      | Some NaN \<Rightarrow> None)"

definition bag_exec :: "find_query \<Rightarrow> doc list \<Rightarrow> (error + doc list) \<times> doc list" where
  "bag_exec c d =
     (case (skip_of (fq_skip c), limit_of (fq_limit c)) of
        (Some k, Some n) \<Rightarrow>
          (let rest = drop k (ref_sort (fq_sort c) (filter (matches (fq_filter c)) d))
           in (Inr (if n = 0 then rest else take n rest), d))
      | _ \<Rightarrow> (Inl (DriverError 0), d))"

definition bag_driver :: "(jsstring, doc list, find_query) driver" where
  "bag_driver =
     \<lparr>server_model = (\<lambda>name s coll d. (Inr name, d)),
      insertMany = (\<lambda>h xs d. (Inr xs, d @ xs)),
      save = (\<lambda>h x d. (Inr x, d @ [x])),
      model_updateOne = (\<lambda>h. ref_update),
      model_updateMany = (\<lambda>h. ref_update),
      countDocuments = (\<lambda>h q d. (Inr (length (filter (matches q) d)), d)),
      estimatedDocumentCount = (\<lambda>h d. (Inr (length d), d)),
      model_find = (\<lambda>h q opts.
         \<lparr>fq_filter = q, fq_options = opts, fq_sort = None, fq_skip = None, fq_limit = None\<rparr>),
      q_sort = (\<lambda>srt c. c\<lparr>fq_sort := srt\<rparr>),
      q_skip = (\<lambda>k c. c\<lparr>fq_skip := Some k\<rparr>),
      q_limit = (\<lambda>n c. c\<lparr>fq_limit := Some n\<rparr>),
      q_lean = bag_exec\<rparr>"

text \<open>A process that has just started, with nothing stored and the clock at 0.\<close>

definition fresh_world :: "oid_source \<Rightarrow> 'd \<Rightarrow> ('h, 'd) world" where
  "fresh_world g d =
     \<lparr>tenantDBModel = Map.empty, timers = [], next_timer = 0, clock = 0, trace = [],
      objectIds = g, db = d\<rparr>"

definition fresh_conn :: "jsstring option \<Rightarrow> conn_state" where
  "fresh_conn url =
     \<lparr>MONGO_URL = url, logged = [], connects = [], pending = [], delays = [],
      c_next_timer = 0, c_clock = 0\<rparr>"

text \<open>Concrete inputs: two collection names, a field name, an identifier, two descriptors.\<close>

definition users :: jsstring where
  "users = [0x75, 0x73, 0x65, 0x72, 0x73]"

definition t1_users :: jsstring where
  "t1_users = [0x74, 0x31, 0x5F, 0x75, 0x73, 0x65, 0x72, 0x73]"

definition name_key :: jsstring where
  "name_key = [0x6E, 0x61, 0x6D, 0x65]"

definition abc :: jsstring where
  "abc = [0x61, 0x62, 0x63]"

definition users_base :: MongoBase where
  "users_base =
     \<lparr>tenantId = None, collectionName = users, schemaModel = Map.empty, index = None\<rparr>"

definition tenant_base :: MongoBase where
  "tenant_base =
     \<lparr>tenantId = Some [0x74, 0x31], collectionName = t1_users, schemaModel = Map.empty,
      index = Some [(name_key, Map.empty)]\<rparr>"

definition two_docs :: "doc list" where
  "two_docs = [[name_key \<mapsto> JNumber 1], [name_key \<mapsto> JNumber 2]]"

definition three_docs :: "doc list" where
  "three_docs =
     [[name_key \<mapsto> JNumber 3], [name_key \<mapsto> JNumber 1], [name_key \<mapsto> JNumber 2]]"

definition db_url :: jsstring where
  "db_url = [0x64, 0x62, 0x3A, 0x2F, 0x2F, 0x68]"

section \<open>Predicates of the specification\<close>

text \<open>A record carries a valid identifier when its \<open>_id\<close> is a string that is not blank.\<close>

definition has_valid_id :: "doc \<Rightarrow> bool" where
  "has_valid_id d = (case get_field d id_key of JString s \<Rightarrow> \<not> blank s | _ \<Rightarrow> False)"

text \<open>
  The cache and its timers belong together: timer ids are distinct and below the next id
  to be given out, every pending timer is the timer of the entry stored under its name,
  and every entry has its timer pending.
\<close>

definition cache_inv :: "('h, 'd) world \<Rightarrow> bool" where
  "cache_inv w =
     (distinct (map t_id (timers w))
      \<and> (\<forall>t \<in> set (timers w). t_id t < next_timer w
            \<and> (\<exists>e. tenantDBModel w (t_name t) = Some e \<and> timer e = t_id t))
      \<and> (\<forall>n e. tenantDBModel w n = Some e
            \<longrightarrow> (\<exists>t \<in> set (timers w). t_id t = timer e \<and> t_name t = n)))"

text \<open>The number of records \<open>skip || 0\<close> asks the driver to skip.\<close>

definition skip_count :: "jsnumber \<Rightarrow> int" where
  "skip_count sk = (case sk of Num k \<Rightarrow> k | NaN \<Rightarrow> 0)"

text \<open>The connection after a failed attempt: one retry timer pending, due 5000 ms from now.\<close>

definition waiting :: "conn_state \<Rightarrow> bool" where
  "waiting c = (\<exists>i. pending c = [\<lparr>r_id = i, r_due = c_clock c + 5000\<rparr>])"

section \<open>Running the reference driver\<close>

lemma ref_driver_sel:
  "server_model ref_driver = (\<lambda>name s coll d. (Inr name, d))"
  "insertMany ref_driver = (\<lambda>h xs d. (Inr xs, d @ xs))"
  "save ref_driver = (\<lambda>h x d. (Inr x, d @ [x]))"
  "model_updateOne ref_driver = (\<lambda>h. ref_update)"
  "model_updateMany ref_driver = (\<lambda>h. ref_update)"
  "countDocuments ref_driver = (\<lambda>h q d. (Inr (length (filter (matches q) d)), d))"
  "estimatedDocumentCount ref_driver = (\<lambda>h d. (Inr (length d), d))"
  "model_find ref_driver = (\<lambda>h q opts. filter (matches q))"
  "q_sort ref_driver = (\<lambda>srt c d. ref_sort srt (c d))"
  "q_skip ref_driver = (\<lambda>k c d. ref_skip k (c d))"
  "q_limit ref_driver = (\<lambda>n c d. ref_limit n (c d))"
  "q_lean ref_driver = (\<lambda>c d. (Inr (c d), d))"
  by (simp_all add: ref_driver_def)

lemma fresh_world_sel:
  "tenantDBModel (fresh_world g d) = Map.empty"
  "timers (fresh_world g d) = []"
  "next_timer (fresh_world g d) = 0"
  "clock (fresh_world g d) = 0"
  "trace (fresh_world g d) = []"
  "objectIds (fresh_world g d) = g"
  "db (fresh_world g d) = d"
  by (simp_all add: fresh_world_def)

section \<open>Object identifiers are 24 hexadecimal digits\<close>

lemma length_toString: "length (toString oid) = 24"
  by (simp add: toString_def)

lemma length_hex_chars: "length hex_chars = 16"
  by (simp add: hex_chars_def)

lemma hex_chars_nth: "n < 16 \<Longrightarrow> hex_chars ! n \<in> set hex_chars"
  using nth_mem [of n hex_chars] by (simp only: length_hex_chars)

lemma toString_hex: "set (toString oid) \<subseteq> set hex_chars"
proof
  fix c assume "c \<in> set (toString oid)"
  then obtain i where "c = hex_chars ! (unat (drop_bit (4 * (23 - i)) oid) mod 16)"
    unfolding toString_def by (auto simp del: upt_Suc)
  then show "c \<in> set hex_chars"
    by (simp only: hex_chars_nth mod_less_divisor zero_less_numeral)
qed

lemma hex_not_white_space: "c \<in> set hex_chars \<Longrightarrow> \<not> is_white_space c"
  by (auto simp: hex_chars_def is_white_space_def)

lemma trim_no_white_space:
  assumes "\<forall>c \<in> set s. \<not> is_white_space c"
  shows "trim s = s"
proof -
  have d: "dropWhile is_white_space xs = xs" if "\<forall>c \<in> set xs. \<not> is_white_space c" for xs
    using that by (cases xs) auto
  from assms show ?thesis by (simp add: trim_def d)
qed

lemma trim_toString: "trim (toString oid) = toString oid"
  using toString_hex hex_not_white_space by (intro trim_no_white_space) blast

lemma toString_not_blank: "\<not> blank (toString oid)"
  using length_toString [of oid] by (auto simp: blank_def trim_toString)

lemma toString_0:
  "toString 0 = [48, 48, 48, 48, 48, 48, 48, 48, 48, 48, 48, 48, 48, 48, 48, 48, 48, 48,
     48, 48, 48, 48, 48, 48]"
  by (simp add: toString_def hex_chars_def upt_rec)

lemma toString_1:
  "toString 1 = [48, 48, 48, 48, 48, 48, 48, 48, 48, 48, 48, 48, 48, 48, 48, 48, 48, 48,
     48, 48, 48, 48, 48, 49]"
  by (simp add: toString_def hex_chars_def upt_rec)

section \<open>Identifier assignment\<close>

lemma map_upt_Suc_shift: "map g [0..<Suc n] = g 0 # map (\<lambda>k. g (Suc k)) [0..<n]"
proof -
  have "[0..<Suc n] = 0 # map Suc [0..<n]"
    by (simp only: upt_conv_Cons zero_less_Suc map_Suc_upt)
  then show ?thesis by (simp only: list.map map_map comp_def)
qed

text \<open>
  The loop keeps, in order, the records that need an identifier and gives the k-th of them
  the k-th identifier of the generator.
\<close>

lemma id_loop_filter:
  "id_loop ds g =
     (map (\<lambda>(d, oid). with_new_id d oid)
        (zip (filter needs_id ds) (map g [0..<length (filter needs_id ds)])),
      \<lambda>n. g (n + length (filter needs_id ds)))"
proof (induction ds arbitrary: g)
  case Nil
  then show ?case by simp
next
  case (Cons d ds)
  show ?case
  proof (cases "needs_id d")
    case False
    then show ?thesis by (simp add: Cons.IH)
  next
    case True
    then show ?thesis
      by (simp add: Cons.IH new_ObjectId_def map_upt_Suc_shift del: upt_Suc)
  qed
qed

lemma needs_id_iff: "needs_id d = (\<not> has_valid_id d)"
  by (cases "get_field d id_key") (simp_all add: needs_id_def has_valid_id_def blank_def)

lemma has_valid_id_abc: "has_valid_id [id_key \<mapsto> JString abc]"
  by (simp add: has_valid_id_def get_field_def blank_def trim_def abc_def is_white_space_def)

lemma no_valid_id_empty: "\<not> has_valid_id Map.empty"
  by (simp add: has_valid_id_def get_field_def)

lemma no_valid_id_space: "\<not> has_valid_id [id_key \<mapsto> JString [0x20]]"
  by (simp add: has_valid_id_def get_field_def blank_def trim_def is_white_space_def)

lemma model_fresh_no_tenant:
  "model ref_driver users_base (fresh_world g d) =
     (Inr users, (fresh_world g d)\<lparr>trace := build_events users_base\<rparr>)"
  by (simp add: model_def fresh_world_def users_base_def ref_driver_def truthy_string_def)

lemma create_single:
  "create D b (Single d) w =
     with_model D b w (\<lambda>h w1.
       case on_db (save D h (d(id_key \<mapsto> JString (toString (objectIds w1 0)))))
              (w1\<lparr>objectIds := \<lambda>n. objectIds w1 (Suc n)\<rparr>) of
         (Inl err, w3) \<Rightarrow> (Inl err, w3)
       | (Inr out, w3) \<Rightarrow> (Inr (Single out), w3))"
  unfolding create_def by (simp add: new_ObjectId_def with_new_id_def)

lemma create_many:
  "create D b (Many ds) w =
     with_model D b w (\<lambda>h w1.
       (let kept = filter (\<lambda>d. \<not> has_valid_id d) ds;
            docs = map (\<lambda>(d, oid). d(id_key \<mapsto> JString (toString oid)))
                     (zip kept (map (objectIds w1) [0..<length kept]))
        in case on_db (insertMany D h docs)
                  (w1\<lparr>objectIds := \<lambda>n. objectIds w1 (n + length kept)\<rparr>) of
             (Inl err, w3) \<Rightarrow> (Inl err, w3)
           | (Inr out, w3) \<Rightarrow> (Inr (Many out), w3)))"
proof -
  have w: "(\<lambda>(d, oid). with_new_id d oid) = (\<lambda>(d, oid). d(id_key \<mapsto> JString (toString oid)))"
    by (simp add: with_new_id_def fun_eq_iff)
  have n: "needs_id = (\<lambda>d. \<not> has_valid_id d)"
    by (simp add: fun_eq_iff needs_id_iff)
  show ?thesis
    unfolding create_def by (simp add: id_loop_filter w n Let_def)
qed

text \<open>
  C1. A record given to \<open>create\<close> with a blank or missing identifier is persisted with a
  generated one, and a record that has a valid identifier should keep it. The code does
  not keep it. Here \<open>create\<close> runs on the reference driver with one record whose
  identifier is \<open>abc\<close>: given alone, the record is stored under the generated identifier
  \<open>000000000000000000000000\<close> instead of \<open>abc\<close>; given in an array, it is not stored at
  all.
\<close>

theorem create_loses_given_id:
  "map (\<lambda>x. x id_key)
     (db (snd (create ref_driver users_base (Single [id_key \<mapsto> JString abc])
                 (fresh_world (\<lambda>n. 0) []))))
     = [Some (JString (toString 0))]
   \<and> toString 0 \<noteq> abc
   \<and> db (snd (create ref_driver users_base (Many [[id_key \<mapsto> JString abc]])
                (fresh_world (\<lambda>n. 0) []))) = []"
proof -
  have "length (toString 0) \<noteq> length abc"
    by (simp add: length_toString abc_def)
  then have "toString 0 \<noteq> abc"
    by auto
  then show ?thesis
    by (simp add: create_single create_many with_model_def model_fresh_no_tenant on_db_def
        ref_driver_sel fresh_world_sel has_valid_id_abc Let_def)
qed

theorem create_loses_given_id_witness:
  "db (snd (create ref_driver users_base (Many [[id_key \<mapsto> JString abc]])
             (fresh_world (\<lambda>n. 0) []))) = []"
  using create_loses_given_id by (rule conjunct2 [THEN conjunct2])

text \<open>
  C10. Given an array, \<open>create\<close> hands to the bulk insert exactly the input records that
  have no valid identifier, in their order, each with the next generated identifier; the
  records that have a valid identifier are left out, and nothing else is handed to the
  driver.
\<close>

theorem create_many_omits_identified:
  "create D b (Many ds) w =
     with_model D b w (\<lambda>h w1.
       (let kept = filter (\<lambda>d. \<not> has_valid_id d) ds;
            docs = map (\<lambda>(d, oid). d(id_key \<mapsto> JString (toString oid)))
                     (zip kept (map (objectIds w1) [0..<length kept]))
        in case on_db (insertMany D h docs)
                  (w1\<lparr>objectIds := \<lambda>n. objectIds w1 (n + length kept)\<rparr>) of
             (Inl err, w3) \<Rightarrow> (Inl err, w3)
           | (Inr out, w3) \<Rightarrow> (Inr (Many out), w3)))"
  by (rule create_many)

theorem create_many_omits_identified_witness:
  "map (\<lambda>x. (x id_key, x name_key))
     (db (snd (create ref_driver users_base
                 (Many [[id_key \<mapsto> JString abc, name_key \<mapsto> JNumber 1],
                        [name_key \<mapsto> JNumber 2],
                        [id_key \<mapsto> JString [0x20], name_key \<mapsto> JNumber 3]])
                 (fresh_world (\<lambda>n. of_nat n) []))))
     = [(Some (JString (toString 0)), Some (JNumber 2)),
        (Some (JString (toString 1)), Some (JNumber 3))]"
proof -
  have a: "has_valid_id [id_key \<mapsto> JString abc, name_key \<mapsto> JNumber 1]"
    by (simp add: has_valid_id_def get_field_def blank_def trim_def abc_def is_white_space_def
        id_key_def name_key_def)
  have b: "\<not> has_valid_id [name_key \<mapsto> JNumber 2]"
    by (simp add: has_valid_id_def get_field_def id_key_def name_key_def)
  have c: "\<not> has_valid_id [id_key \<mapsto> JString [0x20], name_key \<mapsto> JNumber 3]"
    by (simp add: has_valid_id_def get_field_def blank_def trim_def is_white_space_def
        id_key_def name_key_def)
  have k: "id_key \<noteq> name_key" "name_key \<noteq> id_key"
    by (simp_all add: id_key_def name_key_def)
  show ?thesis
    using create_many_omits_identified [of ref_driver users_base
        "[[id_key \<mapsto> JString abc, name_key \<mapsto> JNumber 1], [name_key \<mapsto> JNumber 2],
          [id_key \<mapsto> JString [0x20], name_key \<mapsto> JNumber 3]]"
        "fresh_world (\<lambda>n. of_nat n) []"]
    by (simp add: with_model_def model_fresh_no_tenant on_db_def ref_driver_sel fresh_world_sel
        a b c k upt_rec Let_def)
qed

section \<open>The model getter\<close>

lemma model_hit:
  "tenantDBModel w (collectionName b) = Some e \<Longrightarrow> model D b w = (Inr (data e), w)"
  by (simp add: model_def)

lemma model_miss_unscoped:
  assumes "tenantDBModel w (collectionName b) = None" and "\<not> truthy_string (tenantId b)"
  shows "model D b w =
     (fst (server_model D (collectionName b) (build_schema b) (collectionName b) (db w)),
      w\<lparr>trace := trace w @ build_events b,
        db := snd (server_model D (collectionName b) (build_schema b) (collectionName b) (db w))\<rparr>)"
  using assms by (simp add: model_def split_beta Let_def split: sum.splits)

lemma model_miss_scoped:
  assumes "tenantDBModel w (collectionName b) = None" and "truthy_string (tenantId b)"
    and "server_model D (collectionName b) (build_schema b) (collectionName b) (db w) = (Inr m, d1)"
  shows "model D b w =
     (Inr m,
      w\<lparr>trace := trace w @ build_events b, db := d1,
        tenantDBModel := (tenantDBModel w)(collectionName b \<mapsto> \<lparr>data = m, timer = next_timer w\<rparr>),
        timers := timers w @ [\<lparr>t_id = next_timer w, t_due = clock w + TTL, t_name = collectionName b\<rparr>],
        next_timer := Suc (next_timer w)\<rparr>)"
  using assms by (simp add: model_def)

lemma model_miss_error:
  assumes "tenantDBModel w (collectionName b) = None"
    and "server_model D (collectionName b) (build_schema b) (collectionName b) (db w) = (Inl err, d1)"
  shows "model D b w = (Inl err, w\<lparr>trace := trace w @ build_events b, db := d1\<rparr>)"
  using assms by (simp add: model_def)

lemma model_miss_trace:
  assumes "tenantDBModel w (collectionName b) = None"
  shows "trace (snd (model D b w)) = trace w @ build_events b
       \<and> fst (model D b w) =
           fst (server_model D (collectionName b) (build_schema b) (collectionName b) (db w))"
  using assms by (simp add: model_def split_beta Let_def split: sum.splits)

lemma model_twice_unscoped:
  assumes "\<not> truthy_string (tenantId b)" and "tenantDBModel w (collectionName b) = None"
  shows "model D b w =
           (fst (server_model D (collectionName b) (build_schema b) (collectionName b) (db w)),
            w\<lparr>trace := trace w @ build_events b,
              db := snd (server_model D (collectionName b) (build_schema b) (collectionName b) (db w))\<rparr>)
       \<and> tenantDBModel (snd (model D b w)) = tenantDBModel w
       \<and> timers (snd (model D b w)) = timers w
       \<and> trace (snd (model D b (snd (model D b w)))) = trace w @ build_events b @ build_events b
       \<and> fst (model D b (snd (model D b w))) =
           fst (server_model D (collectionName b) (build_schema b) (collectionName b)
                  (db (snd (model D b w))))"
proof -
  let ?w1 = "snd (model D b w)"
  have one: "model D b w =
           (fst (server_model D (collectionName b) (build_schema b) (collectionName b) (db w)),
            w\<lparr>trace := trace w @ build_events b,
              db := snd (server_model D (collectionName b) (build_schema b) (collectionName b) (db w))\<rparr>)"
    by (rule model_miss_unscoped [OF assms(2) assms(1)])
  have c: "tenantDBModel ?w1 = tenantDBModel w" and t: "timers ?w1 = timers w"
    and tr: "trace ?w1 = trace w @ build_events b"
    by (simp_all add: one)
  have miss: "tenantDBModel ?w1 (collectionName b) = None"
    using assms(2) by (simp add: c)
  have two: "model D b ?w1 =
           (fst (server_model D (collectionName b) (build_schema b) (collectionName b) (db ?w1)),
            ?w1\<lparr>trace := trace ?w1 @ build_events b,
              db := snd (server_model D (collectionName b) (build_schema b) (collectionName b) (db ?w1))\<rparr>)"
    by (rule model_miss_unscoped [OF miss assms(1)])
  have tr2: "trace (snd (model D b ?w1)) = trace w @ build_events b @ build_events b"
    by (simp add: two tr)
  have h2: "fst (model D b ?w1) =
           fst (server_model D (collectionName b) (build_schema b) (collectionName b) (db ?w1))"
    by (simp add: two)
  from one c t tr2 h2 show ?thesis by blast
qed

lemma build_events_users:
  "build_events users_base =
     [SchemaCompiled Map.empty model_schema_options,
      ModelRequested users (new_schema Map.empty model_schema_options) users]"
  by (simp add: build_events_def build_schema_def users_base_def index_specs_def)

lemma users_base_unscoped: "\<not> truthy_string (tenantId users_base)"
  by (simp add: users_base_def truthy_string_def)

lemma tenant_base_scoped: "truthy_string (tenantId tenant_base)"
  by (simp add: tenant_base_def truthy_string_def)

lemma tenant_base_name: "collectionName tenant_base = t1_users"
  by (simp add: tenant_base_def)

lemma model_fresh_tenant:
  "model ref_driver tenant_base (fresh_world g d) =
     (Inr t1_users,
      (fresh_world g d)\<lparr>trace := build_events tenant_base, db := d,
        tenantDBModel := [t1_users \<mapsto> \<lparr>data = t1_users, timer = 0\<rparr>],
        timers := [\<lparr>t_id = 0, t_due = TTL, t_name = t1_users\<rparr>],
        next_timer := Suc 0\<rparr>)"
  using model_miss_scoped [of "fresh_world g d" tenant_base ref_driver t1_users d]
  by (simp add: fresh_world_sel tenant_base_scoped ref_driver_sel tenant_base_name)

text \<open>
  C3. When the cache holds an entry under the collection name, the getter returns the
  entry's handle and changes nothing: no schema is compiled, no index applied, no model
  requested, and the entry and its timer stay as they were.
\<close>

theorem getModel_hit_changes_nothing:
  assumes "tenantDBModel w (collectionName b) = Some e"
  shows "model D b w = (Inr (data e), w)
       \<and> trace (snd (model D b w)) = trace w
       \<and> timers (snd (model D b w)) = timers w
       \<and> tenantDBModel (snd (model D b w)) (collectionName b) = Some e"
  using assms by (simp add: model_hit)

theorem getModel_hit_changes_nothing_witness:
  "model ref_driver tenant_base (snd (model ref_driver tenant_base (fresh_world (\<lambda>n. 0) [])))
     = (Inr t1_users, snd (model ref_driver tenant_base (fresh_world (\<lambda>n. 0) [])))"
proof -
  have "tenantDBModel (snd (model ref_driver tenant_base (fresh_world (\<lambda>n. 0) [])))
          (collectionName tenant_base) = Some \<lparr>data = t1_users, timer = 0\<rparr>"
    by (simp add: model_fresh_tenant tenant_base_name)
  from getModel_hit_changes_nothing [OF this, of ref_driver] show ?thesis
    by simp
qed

text \<open>
  C2, as the code has it. Without a tenant id, and with no entry under the name, the
  getter stores nothing: every call compiles the schema, applies the index
  specifications and requests the model from the driver, and returns the handle the
  driver gives. A second call therefore compiles again, and the two handles are the same
  only when the driver returns the same handle twice.
\<close>

theorem getModel_unscoped_compiles_each_call:
  assumes "\<not> truthy_string (tenantId b)" and "tenantDBModel w (collectionName b) = None"
  shows "model D b w =
           (fst (server_model D (collectionName b) (build_schema b) (collectionName b) (db w)),
            w\<lparr>trace := trace w @ build_events b,
              db := snd (server_model D (collectionName b) (build_schema b) (collectionName b) (db w))\<rparr>)
       \<and> tenantDBModel (snd (model D b w)) = tenantDBModel w
       \<and> timers (snd (model D b w)) = timers w
       \<and> trace (snd (model D b (snd (model D b w)))) = trace w @ build_events b @ build_events b
       \<and> fst (model D b (snd (model D b w))) =
           fst (server_model D (collectionName b) (build_schema b) (collectionName b)
                  (db (snd (model D b w))))"
  using assms by (rule model_twice_unscoped)

theorem getModel_unscoped_compiles_each_call_witness:
  "trace (snd (model ref_driver users_base (snd (model ref_driver users_base
      (fresh_world (\<lambda>n. 0) []))))) = build_events users_base @ build_events users_base"
proof -
  have m: "tenantDBModel (fresh_world (\<lambda>n. 0) ([]::doc list)) (collectionName users_base)
             = (None :: jsstring cache_entry option)"
    by (simp add: fresh_world_sel)
  from getModel_unscoped_compiles_each_call [OF users_base_unscoped m, of ref_driver,
      THEN conjunct2, THEN conjunct2, THEN conjunct2, THEN conjunct1]
  show ?thesis by (simp only: fresh_world_sel append_Nil)
qed

text \<open>
  C2, as the specification has it, fails: on a fresh process, with a descriptor that has
  no tenant id and a driver that returns the same handle for the same name, the second
  call to the getter does compile the schema again.
\<close>

theorem getModel_unscoped_second_call_recompiles:
  "\<not> (fst (model ref_driver users_base (snd (model ref_driver users_base
              (fresh_world (\<lambda>n. 0) []))))
        = fst (model ref_driver users_base (fresh_world (\<lambda>n. 0) []))
      \<and> trace (snd (model ref_driver users_base (snd (model ref_driver users_base
                (fresh_world (\<lambda>n. 0) [])))))
        = trace (snd (model ref_driver users_base (fresh_world (\<lambda>n. 0) []))))"
proof -
  have m: "tenantDBModel (fresh_world (\<lambda>n. 0) ([]::doc list)) (collectionName users_base)
             = (None :: jsstring cache_entry option)"
    by (simp add: fresh_world_sel)
  have 1: "trace (snd (model ref_driver users_base (fresh_world (\<lambda>n. 0) [])))
             = build_events users_base"
    by (simp add: model_miss_unscoped [OF m users_base_unscoped] fresh_world_sel)
  have 2: "trace (snd (model ref_driver users_base (snd (model ref_driver users_base
              (fresh_world (\<lambda>n. 0) []))))) = build_events users_base @ build_events users_base"
    using model_twice_unscoped [OF users_base_unscoped m, of ref_driver,
        THEN conjunct2, THEN conjunct2, THEN conjunct2, THEN conjunct1]
    by (simp only: fresh_world_sel append_Nil)
  show ?thesis by (simp add: 1 2 build_events_users)
qed

section \<open>The cache and its timers\<close>

lemma cache_inv_frame:
  assumes "cache_inv w" and "tenantDBModel w' = tenantDBModel w" and "timers w' = timers w"
    and "next_timer w' = next_timer w"
  shows "cache_inv w'"
  using assms by (simp add: cache_inv_def)

lemma model_cases:
  "(model D b w = (Inr (data (the (tenantDBModel w (collectionName b)))), w) \<and> tenantDBModel w (collectionName b) \<noteq> None)
   \<or> (tenantDBModel w (collectionName b) = None
       \<and> tenantDBModel (snd (model D b w)) = tenantDBModel w
       \<and> timers (snd (model D b w)) = timers w
       \<and> next_timer (snd (model D b w)) = next_timer w)
   \<or> (tenantDBModel w (collectionName b) = None
       \<and> (\<exists>m. tenantDBModel (snd (model D b w)) =
                 (tenantDBModel w)(collectionName b \<mapsto> \<lparr>data = m, timer = next_timer w\<rparr>))
       \<and> timers (snd (model D b w)) =
             timers w @ [\<lparr>t_id = next_timer w, t_due = clock w + TTL, t_name = collectionName b\<rparr>]
       \<and> next_timer (snd (model D b w)) = Suc (next_timer w))"
proof (cases "tenantDBModel w (collectionName b)")
  case (Some e)
  then show ?thesis by (simp add: model_hit)
next
  case None
  obtain r d1 where s: "server_model D (collectionName b) (build_schema b) (collectionName b) (db w) = (r, d1)"
    by (cases "server_model D (collectionName b) (build_schema b) (collectionName b) (db w)")
  show ?thesis
  proof (cases r)
    case (Inl err)
    with None s show ?thesis by (simp add: model_miss_error)
  next
    case (Inr m)
    show ?thesis
    proof (cases "truthy_string (tenantId b)")
      case True
      with None s Inr have "model D b w =
         (Inr m,
          w\<lparr>trace := trace w @ build_events b, db := d1,
            tenantDBModel := (tenantDBModel w)(collectionName b \<mapsto> \<lparr>data = m, timer = next_timer w\<rparr>),
            timers := timers w @ [\<lparr>t_id = next_timer w, t_due = clock w + TTL, t_name = collectionName b\<rparr>],
            next_timer := Suc (next_timer w)\<rparr>)"
        by (simp add: model_miss_scoped)
      then have "(\<exists>m. tenantDBModel (snd (model D b w)) =
                 (tenantDBModel w)(collectionName b \<mapsto> \<lparr>data = m, timer = next_timer w\<rparr>))
         \<and> timers (snd (model D b w)) =
             timers w @ [\<lparr>t_id = next_timer w, t_due = clock w + TTL, t_name = collectionName b\<rparr>]
         \<and> next_timer (snd (model D b w)) = Suc (next_timer w)"
        by auto
      with None show ?thesis by blast
    next
      case False
      with None show ?thesis by (simp add: model_miss_unscoped)
    qed
  qed
qed

lemma cache_inv_model:
  assumes "cache_inv w"
  shows "cache_inv (snd (model D b w))"
proof -
  let ?w' = "snd (model D b w)"
  let ?n = "collectionName b"
  consider
    (hit) "model D b w = (Inr (data (the (tenantDBModel w ?n))), w)"
  | (plain) "tenantDBModel ?w' = tenantDBModel w" "timers ?w' = timers w"
      "next_timer ?w' = next_timer w"
  | (stored) m where "tenantDBModel w ?n = None"
      "tenantDBModel ?w' = (tenantDBModel w)(?n \<mapsto> \<lparr>data = m, timer = next_timer w\<rparr>)"
      "timers ?w' = timers w @ [\<lparr>t_id = next_timer w, t_due = clock w + TTL, t_name = ?n\<rparr>]"
      "next_timer ?w' = Suc (next_timer w)"
    using model_cases [of D b w] by blast
  then show ?thesis
  proof cases
    case hit
    with assms show ?thesis by simp
  next
    case plain
    with assms show ?thesis by (rule cache_inv_frame)
  next
    case stored
    have fresh: "\<forall>t \<in> set (timers w). t_id t \<noteq> next_timer w \<and> t_name t \<noteq> ?n"
      using assms stored(1) by (fastforce simp: cache_inv_def)
    have d: "distinct (map t_id (timers ?w'))"
      using assms fresh by (auto simp: cache_inv_def stored(3))
    have a: "\<forall>t \<in> set (timers ?w'). t_id t < next_timer ?w'
            \<and> (\<exists>e. tenantDBModel ?w' (t_name t) = Some e \<and> timer e = t_id t)"
      using assms fresh by (auto simp: cache_inv_def stored less_Suc_eq)
    have c: "\<forall>n e. tenantDBModel ?w' n = Some e
            \<longrightarrow> (\<exists>t \<in> set (timers ?w'). t_id t = timer e \<and> t_name t = n)"
      using assms by (auto simp: cache_inv_def stored)
    from d a c show ?thesis unfolding cache_inv_def by blast
  qed
qed

lemma fire_present:
  assumes "tenantDBModel w (t_name t) = Some e"
  shows "fire t w =
     (Inr (), w\<lparr>timers := filter (\<lambda>x. t_id x \<noteq> timer e) (remove1 t (timers w)),
               tenantDBModel := (tenantDBModel w)(t_name t := None)\<rparr>)"
  using assms by (simp add: fire_def)

lemma cache_inv_entry:
  assumes "cache_inv w" and "t \<in> set (timers w)"
  shows "\<exists>e. tenantDBModel w (t_name t) = Some e \<and> timer e = t_id t"
  using assms by (auto simp: cache_inv_def)

lemma cache_inv_timer:
  assumes "cache_inv w" and "tenantDBModel w n = Some e"
  shows "\<exists>t \<in> set (timers w). t_id t = timer e \<and> t_name t = n"
  using assms unfolding cache_inv_def by blast

lemma cache_inv_same_id:
  assumes "cache_inv w" and "t \<in> set (timers w)" and "x \<in> set (timers w)" and "t_id x = t_id t"
  shows "x = t"
proof -
  have "inj_on t_id (set (timers w))"
    using assms(1) by (simp add: cache_inv_def distinct_map)
  then show ?thesis using assms(2,3,4) by (simp add: inj_on_def)
qed

lemma cache_inv_fire:
  assumes "cache_inv w" and "t \<in> set (timers w)"
  shows "cache_inv (snd (fire t w))"
proof -
  obtain e where e: "tenantDBModel w (t_name t) = Some e" "timer e = t_id t"
    using cache_inv_entry [OF assms] by blast
  let ?w' = "snd (fire t w)"
  have tm: "timers ?w' = filter (\<lambda>x. t_id x \<noteq> t_id t) (remove1 t (timers w))"
    and ca: "tenantDBModel ?w' = (tenantDBModel w)(t_name t := None)"
    and nx: "next_timer ?w' = next_timer w"
    by (simp_all add: fire_present [OF e(1)] e(2))
  have dt: "distinct (timers w)"
    using assms(1) by (simp add: cache_inv_def distinct_map)
  have sub: "set (timers ?w') = {x \<in> set (timers w). t_id x \<noteq> t_id t}"
  proof -
    have "set (timers ?w') = {x \<in> set (timers w) - {t}. t_id x \<noteq> t_id t}"
      by (simp add: tm set_remove1_eq [OF dt])
    also have "\<dots> = {x \<in> set (timers w). t_id x \<noteq> t_id t}"
      by blast
    finally show ?thesis .
  qed
  have inj: "inj_on t_id (set (timers w))"
    using assms(1) by (simp add: cache_inv_def distinct_map)
  have "inj_on t_id (set (remove1 t (timers w)))"
    using inj set_remove1_subset by (rule inj_on_subset)
  then have "distinct (map t_id (remove1 t (timers w)))"
    using dt by (simp add: distinct_map)
  then have d: "distinct (map t_id (timers ?w'))"
    unfolding tm by (rule distinct_map_filter)
  have other: "t_name x \<noteq> t_name t" if "x \<in> set (timers w)" "t_id x \<noteq> t_id t" for x
  proof
    assume "t_name x = t_name t"
    with cache_inv_entry [OF assms(1) that(1)] e have "t_id x = t_id t" by auto
    with that(2) show False by simp
  qed
  have a: "\<forall>x \<in> set (timers ?w'). t_id x < next_timer ?w'
            \<and> (\<exists>e. tenantDBModel ?w' (t_name x) = Some e \<and> timer e = t_id x)"
  proof
    fix x assume "x \<in> set (timers ?w')"
    then have x: "x \<in> set (timers w)" "t_id x \<noteq> t_id t" by (simp_all add: sub)
    have "t_id x < next_timer w" using assms(1) x(1) by (simp add: cache_inv_def)
    moreover have "\<exists>e. tenantDBModel ?w' (t_name x) = Some e \<and> timer e = t_id x"
      using cache_inv_entry [OF assms(1) x(1)] other [OF x] by (simp add: ca)
    ultimately show "t_id x < next_timer ?w'
            \<and> (\<exists>e. tenantDBModel ?w' (t_name x) = Some e \<and> timer e = t_id x)"
      by (simp add: nx)
  qed
  have c: "\<forall>n e. tenantDBModel ?w' n = Some e
            \<longrightarrow> (\<exists>x \<in> set (timers ?w'). t_id x = timer e \<and> t_name x = n)"
  proof (intro allI impI)
    fix n e' assume s: "tenantDBModel ?w' n = Some e'"
    then have n: "n \<noteq> t_name t" and s0: "tenantDBModel w n = Some e'"
      by (auto simp: ca split: if_splits)
    then obtain x where x: "x \<in> set (timers w)" "t_id x = timer e'" "t_name x = n"
      using cache_inv_timer [OF assms(1)] by blast
    have "t_id x \<noteq> t_id t"
    proof
      assume "t_id x = t_id t"
      then have "x = t" by (rule cache_inv_same_id [OF assms x(1)])
      with x(3) n show False by simp
    qed
    with x show "\<exists>x \<in> set (timers ?w'). t_id x = timer e' \<and> t_name x = n"
      by (auto simp: sub)
  qed
  from d a c show ?thesis unfolding cache_inv_def by blast
qed

lemma reachable_cache_inv: "reachable D w \<Longrightarrow> cache_inv w"
proof (induction rule: reachable.induct)
  case (start w)
  then show ?case by (simp add: cache_inv_def)
next
  case (request w b)
  then show ?case by (simp add: cache_inv_model)
next
  case (passes w n)
  then show ?case by (simp add: cache_inv_def)
next
  case (fires w t)
  then show ?case by (simp add: cache_inv_fire)
next
  case (operates w g d)
  then show ?case by (simp add: cache_inv_def)
qed

lemma cache_inv_one_timer:
  assumes "cache_inv w"
  shows "length (filter (\<lambda>t. t_name t = n) (timers w)) = (if tenantDBModel w n = None then 0 else 1)"
proof (cases "tenantDBModel w n")
  case None
  have "t_name x \<noteq> n" if "x \<in> set (timers w)" for x
    using cache_inv_entry [OF assms that] None by auto
  then have "filter (\<lambda>t. t_name t = n) (timers w) = []"
    by (simp add: filter_empty_conv)
  with None show ?thesis by simp
next
  case (Some e)
  then obtain t where t: "t \<in> set (timers w)" "t_id t = timer e" "t_name t = n"
    using cache_inv_timer [OF assms] by blast
  have dt: "distinct (timers w)"
    using assms by (simp add: cache_inv_def distinct_map)
  have uniq: "x = t" if "x \<in> set (timers w)" "t_name x = n" for x
  proof -
    from cache_inv_entry [OF assms that(1)] that(2) Some have "t_id x = timer e" by auto
    then have "t_id x = t_id t" by (simp add: t(2))
    then show ?thesis by (rule cache_inv_same_id [OF assms t(1) that(1)])
  qed
  have "{x \<in> set (timers w). t_name x = n} = {t}"
  proof (intro equalityI subsetI)
    fix x assume "x \<in> {x \<in> set (timers w). t_name x = n}"
    then have "x \<in> set (timers w)" "t_name x = n" by simp_all
    then have "x = t" by (rule uniq)
    then show "x \<in> {t}" by simp
  next
    fix x assume "x \<in> {t}"
    then show "x \<in> {x \<in> set (timers w). t_name x = n}" using t by simp
  qed
  then have "set (filter (\<lambda>x. t_name x = n) (timers w)) = {t}"
    by simp
  moreover have "distinct (filter (\<lambda>x. t_name x = n) (timers w))"
    using dt by simp
  ultimately have "length (filter (\<lambda>x. t_name x = n) (timers w)) = card {t}"
    using distinct_card by metis
  with Some show ?thesis by simp
qed

lemma fire_timers:
  assumes "cache_inv w" and "t \<in> set (timers w)"
  shows "fire t w =
     (Inr (), w\<lparr>timers := remove1 t (timers w),
               tenantDBModel := (tenantDBModel w)(t_name t := None)\<rparr>)"
proof -
  obtain e where e: "tenantDBModel w (t_name t) = Some e" "timer e = t_id t"
    using cache_inv_entry [OF assms] by blast
  have dt: "distinct (timers w)"
    using assms(1) by (simp add: cache_inv_def distinct_map)
  have "t_id x \<noteq> t_id t" if "x \<in> set (remove1 t (timers w))" for x
  proof
    assume i: "t_id x = t_id t"
    from that have x: "x \<in> set (timers w)" "x \<noteq> t"
      by (simp_all add: set_remove1_eq [OF dt])
    from i have "x = t" by (rule cache_inv_same_id [OF assms x(1)])
    with x(2) show False by simp
  qed
  then have "filter (\<lambda>x. t_id x \<noteq> timer e) (remove1 t (timers w)) = remove1 t (timers w)"
    by (simp add: e(2) filter_id_conv)
  then show ?thesis by (simp add: fire_present [OF e(1)])
qed

lemma TTL_ms: "TTL = 1800000"
  by (simp add: TTL_def)

lemma foldl_schema_index:
  "foldl (\<lambda>s (key, opts). schema_index s (key, 1) opts) s kvs
     = s\<lparr>s_indexes := s_indexes s @ map (\<lambda>(key, opts). ((key, 1), opts)) kvs\<rparr>"
  by (induction kvs arbitrary: s) (simp_all add: schema_index_def split_beta)

lemma build_schema_explicit:
  "build_schema b =
     \<lparr>s_fields = schemaModel b,
      s_options = \<lparr>opt_id = False, versionKey = False, createdAt = True, updatedAt = True\<rparr>,
      s_indexes = map (\<lambda>(key, opts). ((key, 1), opts))
                    (case index b of None \<Rightarrow> [] | Some kvs \<Rightarrow> kvs)\<rparr>"
  by (simp add: build_schema_def foldl_schema_index new_schema_def model_schema_options_def
      index_specs_def)

lemma build_events_explicit:
  "build_events b =
     SchemaCompiled (schemaModel b)
         \<lparr>opt_id = False, versionKey = False, createdAt = True, updatedAt = True\<rparr>
       # map (\<lambda>(key, opts). IndexApplied key opts)
           (case index b of None \<Rightarrow> [] | Some kvs \<Rightarrow> kvs)
       @ [ModelRequested (collectionName b)
            \<lparr>s_fields = schemaModel b,
             s_options = \<lparr>opt_id = False, versionKey = False, createdAt = True, updatedAt = True\<rparr>,
             s_indexes = map (\<lambda>(key, opts). ((key, 1), opts))
                           (case index b of None \<Rightarrow> [] | Some kvs \<Rightarrow> kvs)\<rparr>
            (collectionName b)]"
  by (simp add: build_events_def build_schema_explicit model_schema_options_def index_specs_def)

text \<open>
  C8. In every state the process can reach, each collection name has one pending timer
  when the cache holds an entry under it and none otherwise, and the pending timer is the
  one stored in the entry. When a timer fires, its callback succeeds and removes the
  entry. The next request for that name finds no entry and runs the creation path from
  scratch: it compiles a schema from the descriptor's field definition with the getter's
  options, applies every index specification of the descriptor, in order, as an
  ascending single-field index with its options, and requests the model for the
  collection name from the driver with that schema; for a descriptor with a tenant id it
  stores the new handle with a new timer due 30 minutes (1800000 ms) after the request.
\<close>

theorem tenant_cache_entry_expires:
  assumes "reachable D w" and "t \<in> set (timers w)" and "collectionName b = t_name t"
    and "specs = (case index b of None \<Rightarrow> [] | Some kvs \<Rightarrow> kvs)"
    and "schema = \<lparr>s_fields = schemaModel b,
           s_options = \<lparr>opt_id = False, versionKey = False, createdAt = True, updatedAt = True\<rparr>,
           s_indexes = map (\<lambda>(key, opts). ((key, 1), opts)) specs\<rparr>"
  shows "(\<forall>n. length (filter (\<lambda>x. t_name x = n) (timers w))
              = (if tenantDBModel w n = None then 0 else 1))
       \<and> (\<exists>e. tenantDBModel w (t_name t) = Some e \<and> timer e = t_id t)
       \<and> fire t w = (Inr (), w\<lparr>timers := remove1 t (timers w),
                                tenantDBModel := (tenantDBModel w)(t_name t := None)\<rparr>)
       \<and> tenantDBModel (snd (fire t w)) (t_name t) = None
       \<and> trace (snd (model D b (snd (fire t w))))
           = trace w
             @ [SchemaCompiled (schemaModel b)
                  \<lparr>opt_id = False, versionKey = False, createdAt = True, updatedAt = True\<rparr>]
             @ map (\<lambda>(key, opts). IndexApplied key opts) specs
             @ [ModelRequested (collectionName b) schema (collectionName b)]
       \<and> fst (model D b (snd (fire t w))) =
           fst (server_model D (collectionName b) schema (collectionName b) (db w))
       \<and> db (snd (model D b (snd (fire t w)))) =
           snd (server_model D (collectionName b) schema (collectionName b) (db w))
       \<and> (\<forall>m d1. truthy_string (tenantId b)
             \<and> server_model D (collectionName b) schema (collectionName b) (db w) = (Inr m, d1)
           \<longrightarrow> tenantDBModel (snd (model D b (snd (fire t w)))) (collectionName b)
                 = Some \<lparr>data = m, timer = next_timer w\<rparr>
             \<and> timers (snd (model D b (snd (fire t w))))
                 = remove1 t (timers w) @
                   [\<lparr>t_id = next_timer w, t_due = clock w + 1800000,
                     t_name = collectionName b\<rparr>])"
proof -
  have sch: "build_schema b = schema"
    by (simp add: build_schema_explicit assms(4,5))
  have ev: "build_events b
      = [SchemaCompiled (schemaModel b)
                  \<lparr>opt_id = False, versionKey = False, createdAt = True, updatedAt = True\<rparr>]
             @ map (\<lambda>(key, opts). IndexApplied key opts) specs
             @ [ModelRequested (collectionName b) schema (collectionName b)]"
    by (simp add: build_events_explicit assms(4,5))
  have inv: "cache_inv w" using assms(1) by (rule reachable_cache_inv)
  have one: "\<forall>n. length (filter (\<lambda>x. t_name x = n) (timers w))
              = (if tenantDBModel w n = None then 0 else 1)"
    using cache_inv_one_timer [OF inv] by blast
  have ent: "\<exists>e. tenantDBModel w (t_name t) = Some e \<and> timer e = t_id t"
    using inv assms(2) by (rule cache_inv_entry)
  have f: "fire t w = (Inr (), w\<lparr>timers := remove1 t (timers w),
                                tenantDBModel := (tenantDBModel w)(t_name t := None)\<rparr>)"
    using inv assms(2) by (rule fire_timers)
  have gone: "tenantDBModel (snd (fire t w)) (collectionName b) = None"
    by (simp add: f assms(3))
  have again: "trace (snd (model D b (snd (fire t w)))) = trace w @ build_events b
       \<and> fst (model D b (snd (fire t w))) =
           fst (server_model D (collectionName b) (build_schema b) (collectionName b) (db w))"
    using model_miss_trace [OF gone, of D] by (simp add: f)
  have dbs: "db (snd (model D b (snd (fire t w)))) =
           snd (server_model D (collectionName b) (build_schema b) (collectionName b) (db w))"
    using gone by (simp add: model_def f split_beta Let_def split: sum.splits)
  have stored: "tenantDBModel (snd (model D b (snd (fire t w)))) (collectionName b)
                 = Some \<lparr>data = m, timer = next_timer w\<rparr>
             \<and> timers (snd (model D b (snd (fire t w))))
                 = remove1 t (timers w) @
                   [\<lparr>t_id = next_timer w, t_due = clock w + 1800000,
                     t_name = collectionName b\<rparr>]"
    if "truthy_string (tenantId b)"
      and "server_model D (collectionName b) (build_schema b) (collectionName b) (db w)
             = (Inr m, d1)" for m d1
  proof -
    from that(2) have "server_model D (collectionName b) (build_schema b) (collectionName b)
        (db (snd (fire t w))) = (Inr m, d1)"
      by (simp add: f)
    from model_miss_scoped [OF gone that(1) this] show ?thesis
      by (simp add: f TTL_ms)
  qed
  from one ent f gone again dbs stored show ?thesis
    unfolding ev sch by (simp only: assms(3)) blast
qed

theorem tenant_cache_entry_expires_witness:
  "t_due \<lparr>t_id = 0, t_due = 1800000, t_name = t1_users\<rparr>
     \<le> clock ((snd (model ref_driver tenant_base (fresh_world (\<lambda>n. 0) [])))\<lparr>clock := 1800000\<rparr>)
   \<and> fire \<lparr>t_id = 0, t_due = 1800000, t_name = t1_users\<rparr>
       ((snd (model ref_driver tenant_base (fresh_world (\<lambda>n. 0) [])))\<lparr>clock := 1800000\<rparr>)
     = (Inr (), (snd (model ref_driver tenant_base (fresh_world (\<lambda>n. 0) [])))
                  \<lparr>clock := 1800000, timers := [], tenantDBModel := Map.empty\<rparr>)
   \<and> trace (snd (model ref_driver tenant_base
        (snd (fire \<lparr>t_id = 0, t_due = 1800000, t_name = t1_users\<rparr>
           ((snd (model ref_driver tenant_base (fresh_world (\<lambda>n. 0) [])))\<lparr>clock := 1800000\<rparr>)))))
     = [SchemaCompiled Map.empty
          \<lparr>opt_id = False, versionKey = False, createdAt = True, updatedAt = True\<rparr>,
        IndexApplied name_key Map.empty,
        ModelRequested t1_users
          \<lparr>s_fields = Map.empty,
           s_options = \<lparr>opt_id = False, versionKey = False, createdAt = True, updatedAt = True\<rparr>,
           s_indexes = [((name_key, 1), Map.empty)]\<rparr> t1_users,
        SchemaCompiled Map.empty
          \<lparr>opt_id = False, versionKey = False, createdAt = True, updatedAt = True\<rparr>,
        IndexApplied name_key Map.empty,
        ModelRequested t1_users
          \<lparr>s_fields = Map.empty,
           s_options = \<lparr>opt_id = False, versionKey = False, createdAt = True, updatedAt = True\<rparr>,
           s_indexes = [((name_key, 1), Map.empty)]\<rparr> t1_users]
   \<and> timers (snd (model ref_driver tenant_base
        (snd (fire \<lparr>t_id = 0, t_due = 1800000, t_name = t1_users\<rparr>
           ((snd (model ref_driver tenant_base (fresh_world (\<lambda>n. 0) [])))\<lparr>clock := 1800000\<rparr>)))))
     = [\<lparr>t_id = 1, t_due = 3600000, t_name = t1_users\<rparr>]"
proof -
  let ?w0 = "fresh_world (\<lambda>n. 0) [] :: (jsstring, doc list) world"
  let ?w1 = "snd (model ref_driver tenant_base ?w0)"
  let ?w2 = "?w1\<lparr>clock := 1800000\<rparr>"
  let ?t = "\<lparr>t_id = 0, t_due = 1800000, t_name = t1_users\<rparr>"
  let ?o = "\<lparr>opt_id = False, versionKey = False, createdAt = True, updatedAt = True\<rparr>"
  let ?s = "\<lparr>s_fields = Map.empty, s_options = ?o, s_indexes = [((name_key, 1), Map.empty)]\<rparr>"
  have "reachable ref_driver ?w0"
    by (rule reachable.start) (simp_all add: fresh_world_sel)
  then have "reachable ref_driver ?w1"
    by (rule reachable.request)
  then have "reachable ref_driver (?w1\<lparr>clock := clock ?w1 + 1800000\<rparr>)"
    by (rule reachable.passes)
  then have r: "reachable ref_driver ?w2"
    by (simp add: model_fresh_tenant fresh_world_sel)
  have t: "?t \<in> set (timers ?w2)"
    by (simp add: model_fresh_tenant TTL_ms)
  have n: "collectionName tenant_base = t_name ?t"
    by (simp add: tenant_base_name)
  have sp: "[(name_key, Map.empty)] = (case index tenant_base of None \<Rightarrow> [] | Some kvs \<Rightarrow> kvs)"
    by (simp add: tenant_base_def)
  have sc: "?s = \<lparr>s_fields = schemaModel tenant_base, s_options = ?o,
                  s_indexes = map (\<lambda>(key, opts). ((key, 1), opts)) [(name_key, Map.empty)]\<rparr>"
    by (simp add: tenant_base_def)
  note th = tenant_cache_entry_expires [OF r t n sp sc]
  have due: "t_due ?t \<le> clock ?w2" by simp
  have f: "fire ?t ?w2 = (Inr (), ?w2\<lparr>timers := remove1 ?t (timers ?w2),
                                tenantDBModel := (tenantDBModel ?w2)(t_name ?t := None)\<rparr>)"
    by (rule th [THEN conjunct2, THEN conjunct2, THEN conjunct1])
  have A: "fire ?t ?w2 = (Inr (), ?w1\<lparr>clock := 1800000, timers := [], tenantDBModel := Map.empty\<rparr>)"
    unfolding f by (simp add: model_fresh_tenant TTL_ms)
  have tr: "trace (snd (model ref_driver tenant_base (snd (fire ?t ?w2))))
           = trace ?w2 @ [SchemaCompiled (schemaModel tenant_base) ?o]
             @ map (\<lambda>(key, opts). IndexApplied key opts) [(name_key, Map.empty)]
             @ [ModelRequested (collectionName tenant_base) ?s (collectionName tenant_base)]"
    by (rule th [THEN conjunct2, THEN conjunct2, THEN conjunct2, THEN conjunct2, THEN conjunct1])
  have tr1: "trace ?w2 = [SchemaCompiled Map.empty ?o, IndexApplied name_key Map.empty,
                          ModelRequested t1_users ?s t1_users]"
  proof -
    have "trace ?w2 = build_events tenant_base"
      by (simp add: model_fresh_tenant)
    then show ?thesis
      by (simp add: build_events_explicit tenant_base_def)
  qed
  have B: "trace (snd (model ref_driver tenant_base (snd (fire ?t ?w2))))
           = [SchemaCompiled Map.empty ?o, IndexApplied name_key Map.empty,
              ModelRequested t1_users ?s t1_users,
              SchemaCompiled Map.empty ?o, IndexApplied name_key Map.empty,
              ModelRequested t1_users ?s t1_users]"
    unfolding tr tr1 by (simp add: tenant_base_def)
  have st: "truthy_string (tenantId tenant_base)
             \<and> server_model ref_driver (collectionName tenant_base) ?s (collectionName tenant_base)
                 (db ?w2) = (Inr t1_users, [])"
    by (simp add: tenant_base_scoped ref_driver_sel tenant_base_name model_fresh_tenant fresh_world_sel)
  have "timers (snd (model ref_driver tenant_base (snd (fire ?t ?w2))))
          = remove1 ?t (timers ?w2) @
              [\<lparr>t_id = next_timer ?w2, t_due = clock ?w2 + 1800000,
                t_name = collectionName tenant_base\<rparr>]"
    using th [THEN conjunct2, THEN conjunct2, THEN conjunct2, THEN conjunct2, THEN conjunct2,
        THEN conjunct2, THEN conjunct2, rule_format, OF st] by (rule conjunct2)
  then have C: "timers (snd (model ref_driver tenant_base (snd (fire ?t ?w2))))
          = [\<lparr>t_id = 1, t_due = 3600000, t_name = t1_users\<rparr>]"
    by (simp add: model_fresh_tenant TTL_ms tenant_base_name)
  from due A B C show ?thesis by blast
qed

section \<open>Updates and upserts\<close>

lemma with_model_ok:
  "model D b w = (Inr h, w1) \<Longrightarrow> with_model D b w f = f h w1"
  by (simp add: with_model_def)








section \<open>Counting\<close>

lemma count_ok:
  assumes "model D b w = (Inr h, w1)"
  shows "count D b (Some q) w = on_db (countDocuments D h q) w1"
    and "count D b None w = on_db (estimatedDocumentCount D h) w1"
  by (simp_all add: count_def with_model_ok [OF assms])

lemma count_two_docs:
  "fst (count ref_driver users_base (Some [name_key \<mapsto> JNumber 1]) (fresh_world (\<lambda>n. 0) two_docs))
     = Inr 1"
  "fst (count ref_driver users_base None (fresh_world (\<lambda>n. 0) two_docs)) = Inr 2"
  by (simp_all add: count_ok [OF model_fresh_no_tenant] on_db_def ref_driver_sel fresh_world_sel
      two_docs_def matches_def map_le_def)

text \<open>
  C5. With a query, \<open>count\<close> returns what the driver's \<open>countDocuments\<close> returns for that
  query; without one, what \<open>estimatedDocumentCount\<close> returns. The two can differ on the
  same data: on the reference driver with two records of which one matches, they are 1
  and 2.
\<close>

theorem count_exact_or_estimated:
  assumes "model D b w = (Inr h, w1)"
  shows "count D b (Some q) w = on_db (countDocuments D h q) w1
       \<and> count D b None w = on_db (estimatedDocumentCount D h) w1
       \<and> (\<exists>q0 w0. fst (count ref_driver users_base (Some q0) w0)
                     \<noteq> fst (count ref_driver users_base None w0))"
proof -
  have "fst (count ref_driver users_base (Some [name_key \<mapsto> JNumber 1]) (fresh_world (\<lambda>n. 0) two_docs))
          \<noteq> fst (count ref_driver users_base None (fresh_world (\<lambda>n. 0) two_docs))"
    by (simp add: count_two_docs)
  then have "\<exists>q0 w0. fst (count ref_driver users_base (Some q0) w0)
                     \<noteq> fst (count ref_driver users_base None w0)"
    by blast
  then show ?thesis
    by (simp add: count_ok [OF assms])
qed

theorem count_exact_or_estimated_witness:
  "fst (count ref_driver users_base (Some [name_key \<mapsto> JNumber 1])
          (fresh_world (\<lambda>n. 0) two_docs)) = Inr 1
   \<and> fst (count ref_driver users_base None (fresh_world (\<lambda>n. 0) two_docs)) = Inr 2"
proof -
  note th = count_exact_or_estimated [OF model_fresh_no_tenant,
      where q = "[name_key \<mapsto> JNumber 1]" and g1 = "\<lambda>n. 0" and d1 = two_docs]
  have a: "count ref_driver users_base (Some [name_key \<mapsto> JNumber 1])
             (fresh_world (\<lambda>n. 0) two_docs)
           = on_db (countDocuments ref_driver users [name_key \<mapsto> JNumber 1])
               ((fresh_world (\<lambda>n. 0) two_docs)\<lparr>trace := build_events users_base\<rparr>)"
    by (rule th [THEN conjunct1])
  have b: "count ref_driver users_base None (fresh_world (\<lambda>n. 0) two_docs)
           = on_db (estimatedDocumentCount ref_driver users)
               ((fresh_world (\<lambda>n. 0) two_docs)\<lparr>trace := build_events users_base\<rparr>)"
    by (rule th [THEN conjunct2, THEN conjunct1])
  have A: "fst (count ref_driver users_base (Some [name_key \<mapsto> JNumber 1])
          (fresh_world (\<lambda>n. 0) two_docs)) = Inr 1"
    unfolding a
    by (simp add: on_db_def ref_driver_sel fresh_world_sel two_docs_def matches_def map_le_def)
  have B: "fst (count ref_driver users_base None (fresh_world (\<lambda>n. 0) two_docs)) = Inr 2"
    unfolding b
    by (simp add: on_db_def ref_driver_sel fresh_world_sel two_docs_def)
  from A B show ?thesis by (rule conjI)
qed

section \<open>Paging\<close>

lemma bag_driver_sel:
  "server_model bag_driver = (\<lambda>name s coll d. (Inr name, d))"
  "model_find bag_driver = (\<lambda>h q opts.
         \<lparr>fq_filter = q, fq_options = opts, fq_sort = None, fq_skip = None, fq_limit = None\<rparr>)"
  "q_sort bag_driver = (\<lambda>srt c. c\<lparr>fq_sort := srt\<rparr>)"
  "q_skip bag_driver = (\<lambda>k c. c\<lparr>fq_skip := Some k\<rparr>)"
  "q_limit bag_driver = (\<lambda>n c. c\<lparr>fq_limit := Some n\<rparr>)"
  "q_lean bag_driver = bag_exec"
  by (simp_all add: bag_driver_def)

lemma model_bag_driver:
  "\<exists>h w1. model bag_driver b w = (Inr h, w1) \<and> db w1 = db w"
  by (cases "tenantDBModel w (collectionName b)") (auto simp: model_def bag_driver_sel Let_def)

lemma skip_or_case:
  "(if truthy_number sk then sk else Num 0) = (case sk of Num k \<Rightarrow> Num k | NaN \<Rightarrow> Num 0)"
  by (cases sk) simp_all

lemma paging_chain:
  assumes "model D b w = (Inr h, w1)"
  shows "paging D b query lim sk srt opts w
           = on_db (q_lean D (q_limit D lim
               (q_skip D (case sk of Num k \<Rightarrow> Num k | NaN \<Rightarrow> Num 0)
                  (q_sort D srt (model_find D h query opts))))) w1"
  by (simp add: paging_def with_model_ok [OF assms] skip_or_case)

lemma paging_bag:
  assumes "0 \<le> skip_count sk"
  shows "fst (paging bag_driver b query (Num n) sk srt opts w)
     = Inr (if n = 0 then drop (nat (skip_count sk)) (ref_sort srt (filter (matches query) (db w)))
            else take (nat \<bar>n\<bar>) (drop (nat (skip_count sk))
                   (ref_sort srt (filter (matches query) (db w)))))"
proof -
  obtain h w1 where m: "model bag_driver b w = (Inr h, w1)" and d: "db w1 = db w"
    using model_bag_driver by blast
  have s: "skip_of (Some (case sk of Num k \<Rightarrow> Num k | NaN \<Rightarrow> Num 0)) = Some (nat (skip_count sk))"
    using assms by (cases sk) (simp_all add: skip_of_def skip_count_def)
  show ?thesis
    by (simp add: paging_chain [OF m] on_db_def bag_driver_sel bag_exec_def s limit_of_def d Let_def)
qed

lemma ref_sort_ascending:
  "sorted (map (\<lambda>x. number_field x key) (ref_sort (Some [(key, Asc)]) xs))"
  using sorted_sort_key [of "\<lambda>x. number_field x key" xs]
  by (simp add: ref_sort_def direction_sign_def)

text \<open>
  C9, as the code has it. \<open>paging\<close> builds the driver's query for the given query and
  options, calls \<open>sort\<close> with the sort argument, then \<open>skip\<close> with \<open>skip || 0\<close>, a
  falsy skip (0 or NaN) becoming 0, then \<open>limit\<close> with the limit as given, and returns
  what the driver returns for that query; it does not sort, skip or cap by itself. On the
  option-bag driver the result is the matching records, sorted, without the first \<open>skip\<close>
  records and cut to \<open>limit\<close> records when the limit is positive and the skip is not
  negative; with limit 0 nothing is cut.
\<close>

theorem paging_passes_sort_skip_limit:
  assumes "model D b w = (Inr h, w1)"
  shows "paging D b query lim sk srt opts w
           = on_db (q_lean D (q_limit D lim
               (q_skip D (case sk of Num k \<Rightarrow> Num k | NaN \<Rightarrow> Num 0)
                  (q_sort D srt (model_find D h query opts))))) w1
       \<and> (0 < n \<and> 0 \<le> skip_count sk
           \<longrightarrow> fst (paging bag_driver b0 query (Num n) sk srt opts w0)
               = Inr (take (nat n) (drop (nat (skip_count sk))
                        (ref_sort srt (filter (matches query) (db w0))))))
       \<and> (0 \<le> skip_count sk
           \<longrightarrow> fst (paging bag_driver b0 query (Num 0) sk srt opts w0)
               = Inr (drop (nat (skip_count sk)) (ref_sort srt (filter (matches query) (db w0)))))
       \<and> skip_count NaN = 0 \<and> skip_count (Num k) = k
       \<and> sorted (map (\<lambda>x. number_field x key) (ref_sort (Some [(key, Asc)]) xs))"
  using paging_chain [OF assms] ref_sort_ascending
  by (simp add: paging_bag skip_count_def)

lemma ref_sort_three:
  "ref_sort (Some [(name_key, Asc)]) three_docs
     = [[name_key \<mapsto> JNumber 1], [name_key \<mapsto> JNumber 2], [name_key \<mapsto> JNumber 3]]"
  by (simp add: ref_sort_def three_docs_def direction_sign_def number_field_def)

lemma all_match: "filter (matches Map.empty) xs = xs"
  by (simp add: matches_def)

theorem paging_passes_sort_skip_limit_witness:
  "fst (paging bag_driver users_base Map.empty (Num 2) NaN (Some [(name_key, Asc)]) None
          (fresh_world (\<lambda>n. 0) three_docs))
     = Inr [[name_key \<mapsto> JNumber 1], [name_key \<mapsto> JNumber 2]]
   \<and> fst (paging bag_driver users_base Map.empty (Num 2) (Num 1) (Some [(name_key, Asc)]) None
          (fresh_world (\<lambda>n. 0) three_docs))
     = Inr [[name_key \<mapsto> JNumber 2], [name_key \<mapsto> JNumber 3]]"
proof -
  obtain h w1 where m: "model bag_driver users_base
      (fresh_world (\<lambda>n. 0) three_docs :: (jsstring, doc list) world) = (Inr h, w1)"
    using model_bag_driver by blast
  note th = paging_passes_sort_skip_limit [OF m, where n = 2 and ?b0.0 = users_base
      and query = Map.empty and srt = "Some [(name_key, Asc)]" and opts = None
      and ?w0.0 = "fresh_world (\<lambda>n. 0) three_docs", THEN conjunct2, THEN conjunct1]
  have A: "fst (paging bag_driver users_base Map.empty (Num 2) NaN (Some [(name_key, Asc)]) None
          (fresh_world (\<lambda>n. 0) three_docs))
     = Inr [[name_key \<mapsto> JNumber 1], [name_key \<mapsto> JNumber 2]]"
    using th [of NaN] by (simp add: skip_count_def fresh_world_sel all_match ref_sort_three)
  have B: "fst (paging bag_driver users_base Map.empty (Num 2) (Num 1) (Some [(name_key, Asc)]) None
          (fresh_world (\<lambda>n. 0) three_docs))
     = Inr [[name_key \<mapsto> JNumber 2], [name_key \<mapsto> JNumber 3]]"
    using th [of "Num 1"] by (simp add: skip_count_def fresh_world_sel all_match ref_sort_three)
  from A B show ?thesis by (rule conjI)
qed

text \<open>
  C9, as the specification has it, fails for a limit of 0: the limit reaches the driver
  unchanged, the driver reads 0 as no limit, and all three records come back where a cap
  of 0 records would leave none.
\<close>

theorem paging_limit_zero_not_capped:
  "fst (paging bag_driver users_base Map.empty (Num 0) (Num 0) (Some [(name_key, Asc)]) None
          (fresh_world (\<lambda>n. 0) three_docs))
     = Inr [[name_key \<mapsto> JNumber 1], [name_key \<mapsto> JNumber 2], [name_key \<mapsto> JNumber 3]]
   \<and> fst (paging bag_driver users_base Map.empty (Num 0) (Num 0) (Some [(name_key, Asc)]) None
          (fresh_world (\<lambda>n. 0) three_docs))
     \<noteq> Inr (take (nat 0) (drop (nat 0)
            (ref_sort (Some [(name_key, Asc)]) (filter (matches Map.empty) three_docs))))"
  by (simp add: paging_bag skip_count_def fresh_world_sel all_match ref_sort_three)

section \<open>Connecting to the database\<close>

lemma fresh_conn_sel:
  "MONGO_URL (fresh_conn url) = url"
  "logged (fresh_conn url) = []"
  "connects (fresh_conn url) = []"
  "pending (fresh_conn url) = []"
  "delays (fresh_conn url) = []"
  "c_next_timer (fresh_conn url) = 0"
  "c_clock (fresh_conn url) = 0"
  by (simp_all add: fresh_conn_def)

lemma falsy_address: "(\<not> truthy_string a) = (a = None \<or> a = Some [])"
  by (cases a) (simp_all add: truthy_string_def)

lemma mongoconnect_no_address:
  assumes "\<not> truthy_string (MONGO_URL c)"
  shows "mongoconnect c = c\<lparr>logged := logged c @ [AddressRequired (MONGO_URL c)]\<rparr>"
    and "attempt outcome c = mongoconnect c"
  using assms by (simp_all add: mongoconnect_def attempt_def)

lemma blank_space: "blank [0x20]"
  by (simp add: blank_def trim_def is_white_space_def)

lemma attempt_fails:
  assumes "MONGO_URL c = Some a" and "a \<noteq> []"
  shows "attempt (Some e) c =
     c\<lparr>connects := connects c @ [a],
       logged := logged c @ [ConnectFailed e],
       pending := pending c @ [\<lparr>r_id = c_next_timer c, r_due = c_clock c + 5000\<rparr>],
       delays := delays c @ [5000],
       c_next_timer := Suc (c_next_timer c)\<rparr>"
  using assms
  by (simp add: attempt_def mongoconnect_def connect_callback_def set_retry_def
      truthy_string_def RECONNET_TIME_def)

lemma attempt_succeeds:
  assumes "MONGO_URL c = Some a" and "a \<noteq> []"
  shows "attempt None c = c\<lparr>connects := connects c @ [a]\<rparr>"
  using assms
  by (simp add: attempt_def mongoconnect_def connect_callback_def truthy_string_def)

lemma attempt_fails_waiting:
  assumes "MONGO_URL c = Some a" and "a \<noteq> []" and "pending c = []"
  shows "waiting (attempt (Some e) c)"
  by (simp add: attempt_fails [OF assms(1,2)] assms(3) waiting_def)

lemma retry_fires_fails:
  assumes "MONGO_URL c = Some a" and "a \<noteq> []" and "waiting c"
  shows "MONGO_URL (retry_fires (Some e) c) = Some a"
    and "waiting (retry_fires (Some e) c)"
    and "connects (retry_fires (Some e) c) = connects c @ [a]"
    and "logged (retry_fires (Some e) c) = logged c @ [ConnectFailed e]"
    and "delays (retry_fires (Some e) c) = delays c @ [5000]"
    and "c_clock (retry_fires (Some e) c) = c_clock c + 5000"
proof -
  from assms(3) obtain i where p: "pending c = [\<lparr>r_id = i, r_due = c_clock c + 5000\<rparr>]"
    by (auto simp: waiting_def)
  let ?c1 = "c\<lparr>pending := [], c_clock := c_clock c + 5000\<rparr>"
  have r: "retry_fires (Some e) c = attempt (Some e) ?c1"
    by (simp add: retry_fires_def p)
  have u: "MONGO_URL ?c1 = Some a" using assms(1) by simp
  note f = attempt_fails [OF u assms(2), of e]
  show "MONGO_URL (retry_fires (Some e) c) = Some a"
    by (simp add: r f assms(1))
  show "waiting (retry_fires (Some e) c)"
    by (simp add: r f waiting_def)
  show "connects (retry_fires (Some e) c) = connects c @ [a]"
    by (simp add: r f)
  show "logged (retry_fires (Some e) c) = logged c @ [ConnectFailed e]"
    by (simp add: r f)
  show "delays (retry_fires (Some e) c) = delays c @ [5000]"
    by (simp add: r f)
  show "c_clock (retry_fires (Some e) c) = c_clock c + 5000"
    by (simp add: r f)
qed

lemma retries_fail:
  assumes "MONGO_URL c = Some a" and "a \<noteq> []" and "waiting c"
  shows "MONGO_URL (foldl (\<lambda>s y. retry_fires y s) c (map Some errs)) = Some a
       \<and> waiting (foldl (\<lambda>s y. retry_fires y s) c (map Some errs))
       \<and> connects (foldl (\<lambda>s y. retry_fires y s) c (map Some errs))
           = connects c @ replicate (length errs) a
       \<and> logged (foldl (\<lambda>s y. retry_fires y s) c (map Some errs))
           = logged c @ map ConnectFailed errs
       \<and> delays (foldl (\<lambda>s y. retry_fires y s) c (map Some errs))
           = delays c @ replicate (length errs) 5000
       \<and> c_clock (foldl (\<lambda>s y. retry_fires y s) c (map Some errs))
           = c_clock c + 5000 * length errs"
  using assms
proof (induction errs arbitrary: c)
  case Nil
  then show ?case by simp
next
  case (Cons e errs)
  note step = retry_fires_fails [OF Cons.prems, of e]
  from Cons.IH [OF step(1) Cons.prems(2) step(2)] show ?case
    by (simp add: step(3-6) replicate_app_Cons_same)
qed

lemma no_timer_no_retry:
  "pending c = [] \<Longrightarrow> foldl (\<lambda>s y. retry_fires y s) c outcomes = c"
  by (induction outcomes) (simp_all add: retry_fires_def)

text \<open>
  C7. While the address is configured, every attempt that the driver fails logs the error
  and sets one timer of 5000 ms that runs \<open>mongoconnect\<close> again; the error goes to the
  callback and the log only, and no operation of the model returns it. After any number
  of failures in a row there has been one attempt and one logged error per failure, each
  timer was set with a delay of 5000 ms, and the next attempt is pending, due 5000 ms
  from now.
\<close>

theorem connect_retries_forever:
  assumes "MONGO_URL c = Some a" and "a \<noteq> []" and "pending c = []"
  shows "connects (connect_run (map Some (e # errs)) c) = connects c @ replicate (Suc (length errs)) a
       \<and> logged (connect_run (map Some (e # errs)) c) = logged c @ map ConnectFailed (e # errs)
       \<and> delays (connect_run (map Some (e # errs)) c) = delays c @ replicate (Suc (length errs)) 5000
       \<and> (\<exists>i. pending (connect_run (map Some (e # errs)) c)
              = [\<lparr>r_id = i, r_due = c_clock (connect_run (map Some (e # errs)) c) + 5000\<rparr>])
       \<and> c_clock (connect_run (map Some (e # errs)) c) = c_clock c + 5000 * length errs"
proof -
  let ?c1 = "attempt (Some e) c"
  have run: "connect_run (map Some (e # errs)) c = foldl (\<lambda>s y. retry_fires y s) ?c1 (map Some errs)"
    by (simp add: connect_run_def)
  note f = attempt_fails [OF assms(1,2), of e]
  have u: "MONGO_URL ?c1 = Some a" by (simp add: f assms(1))
  have w: "waiting ?c1" using assms by (rule attempt_fails_waiting)
  have first: "connects ?c1 = connects c @ [a]" "logged ?c1 = logged c @ [ConnectFailed e]"
    "delays ?c1 = delays c @ [5000]" "c_clock ?c1 = c_clock c"
    by (simp_all add: f)
  from retries_fail [OF u assms(2) w, of errs] show ?thesis
    unfolding run by (auto simp add: first waiting_def replicate_app_Cons_same)
qed

theorem connect_retries_forever_witness:
  "connects (connect_run [Some 1, Some 2, Some 3] (fresh_conn (Some db_url)))
     = [db_url, db_url, db_url]
   \<and> logged (connect_run [Some 1, Some 2, Some 3] (fresh_conn (Some db_url)))
     = [ConnectFailed 1, ConnectFailed 2, ConnectFailed 3]
   \<and> delays (connect_run [Some 1, Some 2, Some 3] (fresh_conn (Some db_url)))
     = [5000, 5000, 5000]
   \<and> c_clock (connect_run [Some 1, Some 2, Some 3] (fresh_conn (Some db_url))) = 10000"
proof -
  have a: "db_url \<noteq> []" by (simp add: db_url_def)
  from connect_retries_forever [of "fresh_conn (Some db_url)" db_url 1 "[2, 3]"] a
  show ?thesis
    by (simp add: fresh_conn_sel)
qed

text \<open>
  C6, as the code has it. When the address is missing or the empty string,
  \<open>mongoconnect\<close> logs that the address is required and does nothing else: the driver's
  \<open>connect\<close> is not called, no timer is set, and with no timer pending the run ends
  there whatever the driver would have answered.
\<close>

theorem connect_without_address:
  assumes "MONGO_URL c = None \<or> MONGO_URL c = Some []"
  shows "mongoconnect c = c\<lparr>logged := logged c @ [AddressRequired (MONGO_URL c)]\<rparr>
       \<and> attempt outcome c = mongoconnect c
       \<and> connects (attempt outcome c) = connects c
       \<and> pending (attempt outcome c) = pending c
       \<and> delays (attempt outcome c) = delays c
       \<and> (pending c = [] \<longrightarrow> connect_run (outcome # outcomes) c = mongoconnect c)"
proof -
  from assms have f: "\<not> truthy_string (MONGO_URL c)" by (simp add: falsy_address)
  have "connect_run (outcome # outcomes) c = mongoconnect c" if "pending c = []"
  proof -
    have "pending (attempt outcome c) = []"
      using that by (simp add: mongoconnect_no_address [OF f])
    then show ?thesis
      by (simp add: connect_run_def no_timer_no_retry mongoconnect_no_address(2) [OF f])
  qed
  then show ?thesis by (simp add: mongoconnect_no_address [OF f])
qed

theorem connect_without_address_witness:
  "connect_run [Some 7, None] (fresh_conn (Some []))
     = (fresh_conn (Some []))\<lparr>logged := [AddressRequired (Some [])]\<rparr>
   \<and> connect_run [Some 7, None] (fresh_conn None)
     = (fresh_conn None)\<lparr>logged := [AddressRequired None]\<rparr>"
  using connect_without_address [of "fresh_conn (Some [])" "Some 7" "[None]"]
    connect_without_address [of "fresh_conn None" "Some 7" "[None]"]
  by (simp add: fresh_conn_sel)

text \<open>
  C6, as the specification has it, fails for an address that is blank but not empty: a
  single space is handed to the driver like any other address, and when the driver fails
  the retry timer is set.
\<close>

theorem connect_blank_address_attempted:
  "blank [0x20]
   \<and> connects (attempt (Some 7) (fresh_conn (Some [0x20]))) = [[0x20]]
   \<and> delays (attempt (Some 7) (fresh_conn (Some [0x20]))) = [5000]
   \<and> logged (attempt (Some 7) (fresh_conn (Some [0x20]))) = [ConnectFailed 7]"
  by (simp add: blank_space attempt_fails [of _ "[0x20]"] fresh_conn_sel)

end
